theory Spec2Isabelle
  imports Main "HOL-Library.Word"
begin

unbundle bit_operations_syntax

section \<open>The I/O tracer core (source/kernel/io\_trace.c)\<close>

text \<open>
  A shallow embedding of the trace subsystem of the kernel module: the event emitters
  \<open>iotrace_trace_bio\<close> and \<open>iotrace_trace_desc\<close>, the tracer life cycle
  (\<open>init_tracers\<close>, \<open>deinit_tracers\<close>), the buffer sizing functions and the
  reference-counted \<open>iotrace_attach_client\<close> / \<open>iotrace_detach_client\<close>.

  The module state is one record that is passed through every function. The functions of
  the kernel and of the trace library that the module calls are not part of the module:
  the value each of them returns is supplied by an environment record, and every call is
  appended to a log kept in the state, so that which calls were made, and in which order,
  can be stated. The mutex that serialises the life-cycle functions is modelled by every
  function being one atomic step; emit calls, which run concurrently on several
  processors, are ordered by their atomic increment of the sequence counter. Messages
  to the kernel log (\<open>printk\<close>) are left out.
\<close>

subsection \<open>Return codes\<close>

text \<open>The C functions return 0 or a negated errno value of the kernel.\<close>

definition EINVAL :: int where "EINVAL = 22"
definition ENOMEM :: int where "ENOMEM = 12"
definition ENOSPC :: int where "ENOSPC = 28"

subsection \<open>Block I/O descriptors (internal/bio.h)\<close>

text \<open>
  bio.h accepts exactly one kernel, Linux 3.10.0. The fields it reads from
  \<open>struct bio\<close> are \<open>bi_rw\<close> (unsigned long), \<open>bi_sector\<close> (sector\_t) and
  \<open>bi_size\<close> (unsigned int). \<open>WRITE\<close>, \<open>bio_data_dir\<close> and the \<open>REQ_\<close> bits
  are those of that kernel's headers; no theorem depends on the positions of the bits.
\<close>

record bio =
  bi_rw :: "64 word"
  bi_sector :: "64 word"
  bi_size :: "32 word"

definition WRITE :: "64 word" where "WRITE = 1"
definition REQ_DISCARD :: "64 word" where "REQ_DISCARD = push_bit 7 1"
definition REQ_FUA :: "64 word" where "REQ_FUA = push_bit 11 1"
definition REQ_FLUSH :: "64 word" where "REQ_FLUSH = push_bit 12 1"

definition bio_data_dir :: "bio \<Rightarrow> 64 word" where
  "bio_data_dir b = bi_rw b AND 1"

definition IOTRACE_BIO_OP_FLAGS :: "bio \<Rightarrow> 64 word" where
  "IOTRACE_BIO_OP_FLAGS b = bi_rw b"

definition IOTRACE_BIO_IS_WRITE :: "bio \<Rightarrow> bool" where
  "IOTRACE_BIO_IS_WRITE b \<longleftrightarrow> bio_data_dir b = WRITE"

definition IOTRACE_BIO_IS_DISCARD :: "bio \<Rightarrow> bool" where
  "IOTRACE_BIO_IS_DISCARD b \<longleftrightarrow> IOTRACE_BIO_OP_FLAGS b AND REQ_DISCARD \<noteq> 0"

definition IOTRACE_BIO_BISIZE :: "bio \<Rightarrow> 32 word" where
  "IOTRACE_BIO_BISIZE b = bi_size b"

definition IOTRACE_BIO_BISECTOR :: "bio \<Rightarrow> 64 word" where
  "IOTRACE_BIO_BISECTOR b = bi_sector b"

definition IOTRACE_BIO_IS_FLUSH :: "bio \<Rightarrow> bool" where
  "IOTRACE_BIO_IS_FLUSH b \<longleftrightarrow> IOTRACE_BIO_OP_FLAGS b AND REQ_FLUSH \<noteq> 0"

definition IOTRACE_BIO_IS_FUA :: "bio \<Rightarrow> bool" where
  "IOTRACE_BIO_IS_FUA b \<longleftrightarrow> IOTRACE_BIO_OP_FLAGS b AND REQ_FUA \<noteq> 0"

definition SECTOR_SHIFT :: nat where "SECTOR_SHIFT = 9"

subsection \<open>Trace records (iotrace\_event.h)\<close>

text \<open>
  Modelled from the spec: iotrace\_event.h, which declares the two record types, the
  header initialiser and the flag bits, is not among the sources. The header holds the
  event kind, the sequence id, the time stamp and the encoded length; an I/O event holds
  operation, flag bits, logical block address, length in blocks, I/O class and device id;
  a device descriptor holds device id, device size and the bounded name. The two flags
  are distinct single bits.
\<close>

datatype iotrace_event_type = iotrace_event_type_io | iotrace_event_type_device_desc

datatype iotrace_event_operation =
  iotrace_event_operation_rd | iotrace_event_operation_wr | iotrace_event_operation_discard

record iotrace_event_hdr =
  hdr_type :: iotrace_event_type
  hdr_sid :: "64 word"
  hdr_timestamp :: "64 word"
  hdr_size :: nat

record iotrace_event =
  ev_hdr :: iotrace_event_hdr
  operation :: iotrace_event_operation
  flags :: "32 word"
  lba :: "64 word"
  len :: "32 word"
  io_class :: "32 word"
  ev_dev_id :: "64 word"

record iotrace_event_device_desc =
  desc_hdr :: iotrace_event_hdr
  desc_id :: "64 word"
  device_size :: "64 word"
  device_name :: string

datatype trace_record = Io iotrace_event | Desc iotrace_event_device_desc

definition iotrace_event_flag_flush :: "32 word" where "iotrace_event_flag_flush = 1"
definition iotrace_event_flag_fua :: "32 word" where "iotrace_event_flag_fua = 2"

definition iotrace_event_init_hdr ::
  "iotrace_event_type \<Rightarrow> 64 word \<Rightarrow> 64 word \<Rightarrow> nat \<Rightarrow> iotrace_event_hdr" where
  "iotrace_event_init_hdr ty sid_v ts sz =
     \<lparr>hdr_type = ty, hdr_sid = sid_v, hdr_timestamp = ts, hdr_size = sz\<rparr>"

text \<open>
  The constants whose declarations are missing are parameters: the sizes of the two
  records, the capacity of the name field (\<open>sizeof(desc.device_name)\<close>) and the ceiling
  \<open>iotrace_procfs_max_buffer_size_mb\<close> of procfs.h.
\<close>

record config =
  sizeof_event :: nat
  sizeof_desc :: nat
  dev_name_size :: nat
  iotrace_procfs_max_buffer_size_mb :: "64 word"

subsection \<open>State\<close>

text \<open>
  \<open>octf_trace_t\<close> is a handle of the trace library: NULL, or a producer bound to the
  trace ring of one processor's procfs file. A procfs file has a ring or not
  (\<open>file->trace_ring\<close> is NULL), and the size of the ring.
\<close>

type_synonym octf_trace_t = "nat option"

record iotrace_proc_file =
  trace_ring :: bool
  trace_ring_size :: "64 word"

text \<open>The calls to the kernel, the trace library and the other parts of the module.\<close>

datatype call =
    Alloc_percpu bool
  | Free_percpu
  | Trace_open nat int
  | Trace_close nat octf_trace_t
  | Trace_push octf_trace_t trace_record int
  | Wake_up nat
  | Register_probe int
  | Unregister_probe
  | Bdev_remove_all
  | Trace_file_alloc nat "64 word" int

text \<open>
  Modelled from the spec: \<open>struct iotrace_state\<close> and \<open>struct iotrace_context\<close>
  are declared in internal/io\_trace.h and internal/context.h, which are not among the
  sources. The context owns the per-processor table of handles, the client count, the
  sequence counter and the configured per-processor size. The client count is a signed
  integer (the spec states the invariant \<open>clients \<ge> 0\<close>), the sequence counter is
  the 64-bit \<open>atomic64_t\<close>, the per-processor size is a 64-bit unsigned value.

  \<open>traces\<close> is the per-processor table of handles; \<open>traces_allocated\<close> says whether
  the table exists (between \<open>alloc_percpu\<close> and \<open>free_percpu\<close>). The other
  fields are the host's: the processors online, whether the probe is registered with
  the tracepoint, the records in the ring of each processor, and the log of calls.
\<close>

record iotrace_context =
  sid :: "64 word"
  traces :: "nat \<Rightarrow> octf_trace_t"
  traces_allocated :: bool
  clients :: int
  size :: "64 word"
  proc_files :: "nat \<Rightarrow> iotrace_proc_file"
  online_cpus :: "nat list"
  hook :: bool
  rings :: "nat \<Rightarrow> trace_record list"
  log :: "call list"

text \<open>What the kernel and the trace library answer during one life-cycle call.\<close>

record lifecycle_env =
  alloc_ok :: bool
  open_result :: "nat \<Rightarrow> int"
  register_result :: int
  uninit :: int

text \<open>What they answer during one emit call.\<close>

record emit_env =
  ktime :: "64 word"
  dss_io_class :: "32 word"
  push_result :: int

text \<open>What the procfs layer answers while the backing rings are allocated.\<close>

record sizing_env =
  file_alloc_result :: "nat \<Rightarrow> int"

subsection \<open>Kernel and trace-library calls\<close>

text \<open>
  Every call appends itself to the log. What it returns is the environment's answer;
  what it changes is written out: a successful registration turns the hook on, a
  successful open fills the slot of the processor in the handle table, and so on.
\<close>

definition called :: "call \<Rightarrow> iotrace_context \<Rightarrow> iotrace_context" where
  "called c s = s\<lparr>log := log s @ [c]\<rparr>"

definition num_online_cpus :: "iotrace_context \<Rightarrow> 32 word" where
  "num_online_cpus s = of_nat (length (online_cpus s))"

definition atomic64_inc_return :: "iotrace_context \<Rightarrow> 64 word \<times> iotrace_context" where
  "atomic64_inc_return s = (sid s + 1, s\<lparr>sid := sid s + 1\<rparr>)"

text \<open>\<open>alloc_percpu\<close> returns zeroed memory or NULL.\<close>

definition alloc_percpu :: "lifecycle_env \<Rightarrow> iotrace_context \<Rightarrow> iotrace_context" where
  "alloc_percpu e s =
     (if alloc_ok e then (called (Alloc_percpu True) s)\<lparr>traces := (\<lambda>_. None), traces_allocated := True\<rparr>
      else (called (Alloc_percpu False) s)\<lparr>traces_allocated := False\<rparr>)"

definition free_percpu :: "iotrace_context \<Rightarrow> iotrace_context" where
  "free_percpu s = (called Free_percpu s)\<lparr>traces_allocated := False\<rparr>"

text \<open>
  Modelled from the spec: the trace library (octf) is an external collaborator.
  \<open>open\<close> binds a handle to the backing ring or fails; \<open>push\<close> appends one record,
  or drops it and reports that; \<open>close\<close> releases the binding and is idempotent.
\<close>

definition octf_trace_open :: "lifecycle_env \<Rightarrow> nat \<Rightarrow> iotrace_context \<Rightarrow> int \<times> iotrace_context" where
  "octf_trace_open e i s =
     (let r = open_result e i;
          s1 = called (Trace_open i r) s
      in if r = 0 then (r, s1\<lparr>traces := (traces s1)(i := Some i)\<rparr>) else (r, s1))"

definition octf_trace_close :: "nat \<Rightarrow> iotrace_context \<Rightarrow> iotrace_context" where
  "octf_trace_close i s = (called (Trace_close i (traces s i)) s)\<lparr>traces := (traces s)(i := None)\<rparr>"

definition octf_trace_push ::
  "emit_env \<Rightarrow> octf_trace_t \<Rightarrow> trace_record \<Rightarrow> iotrace_context \<Rightarrow> int \<times> iotrace_context" where
  "octf_trace_push e h r s =
     (let res = push_result e;
          s1 = called (Trace_push h r res) s
      in case h of
           Some ring \<Rightarrow>
             if res = 0 then (res, s1\<lparr>rings := (rings s1)(ring := rings s1 ring @ [r])\<rparr>)
             else (res, s1)
         | None \<Rightarrow> (res, s1))"

definition register_trace_block_bio_queue ::
  "lifecycle_env \<Rightarrow> iotrace_context \<Rightarrow> int \<times> iotrace_context" where
  "register_trace_block_bio_queue e s =
     (let r = register_result e;
          s1 = called (Register_probe r) s
      in if r = 0 then (r, s1\<lparr>hook := True\<rparr>) else (r, s1))"

definition unregister_trace_block_bio_queue :: "iotrace_context \<Rightarrow> iotrace_context" where
  "unregister_trace_block_bio_queue s = (called Unregister_probe s)\<lparr>hook := False\<rparr>"

definition iotrace_bdev_remove_all :: "iotrace_context \<Rightarrow> iotrace_context" where
  "iotrace_bdev_remove_all s = called Bdev_remove_all s"

text \<open>
  Modelled from the spec: procfs.c is not among the sources. Allocating the backing
  storage of one processor's file either succeeds, and the file then has a ring of the
  requested size, or fails, and the file has none.
\<close>

definition iotrace_procfs_trace_file_alloc ::
  "sizing_env \<Rightarrow> nat \<Rightarrow> 64 word \<Rightarrow> iotrace_context \<Rightarrow> int \<times> iotrace_context" where
  "iotrace_procfs_trace_file_alloc e i sz s =
     (let r = file_alloc_result e i;
          s1 = called (Trace_file_alloc i sz r) s
      in if r = 0
         then (r, s1\<lparr>proc_files := (proc_files s1)(i := \<lparr>trace_ring = True, trace_ring_size = sz\<rparr>)\<rparr>)
         else (r, s1\<lparr>proc_files := (proc_files s1)(i := \<lparr>trace_ring = False, trace_ring_size = 0\<rparr>)\<rparr>))"

subsection \<open>Emitting events\<close>

definition iotrace_notify_of_new_events :: "nat \<Rightarrow> iotrace_context \<Rightarrow> iotrace_context" where
  "iotrace_notify_of_new_events cpu s = called (Wake_up cpu) s"

text \<open>
  Both emitters read the handle of the processor from the table \<open>traces\<close>. Reading a
  table that is not allocated is undefined in C: the model returns \<open>None\<close> there.
\<close>

definition iotrace_trace_bio ::
  "config \<Rightarrow> emit_env \<Rightarrow> nat \<Rightarrow> 64 word \<Rightarrow> bio \<Rightarrow> iotrace_context \<Rightarrow> iotrace_context option" where
  "iotrace_trace_bio cfg e cpu dev_id b s =
     (if \<not> traces_allocated s then None
      else
        let (sid_v, s1) = atomic64_inc_return s;
            hdr = iotrace_event_init_hdr iotrace_event_type_io sid_v (ktime e) (sizeof_event cfg);
            op = (if IOTRACE_BIO_IS_DISCARD b then iotrace_event_operation_discard
                  else if IOTRACE_BIO_IS_WRITE b then iotrace_event_operation_wr
                  else iotrace_event_operation_rd);
            fl0 = (0 :: 32 word);
            fl1 = (if IOTRACE_BIO_IS_FLUSH b then fl0 OR iotrace_event_flag_flush else fl0);
            fl2 = (if IOTRACE_BIO_IS_FUA b then fl1 OR iotrace_event_flag_fua else fl1);
            ev = \<lparr>ev_hdr = hdr, operation = op, flags = fl2,
                  lba = IOTRACE_BIO_BISECTOR b,
                  len = drop_bit SECTOR_SHIFT (IOTRACE_BIO_BISIZE b),
                  io_class = dss_io_class e, ev_dev_id = dev_id\<rparr>;
            (res, s2) = octf_trace_push e (traces s1 cpu) (Io ev) s1
        in Some (iotrace_notify_of_new_events cpu s2))"

text \<open>A C string is the list of its characters before the terminator.\<close>

definition strnlen :: "string \<Rightarrow> nat \<Rightarrow> nat" where
  "strnlen str n = min (length str) n"

definition iotrace_trace_desc ::
  "config \<Rightarrow> emit_env \<Rightarrow> nat \<Rightarrow> 32 word \<Rightarrow> string \<Rightarrow> 64 word \<Rightarrow> iotrace_context
     \<Rightarrow> (int \<times> iotrace_context) option" where
  "iotrace_trace_desc cfg e cpu dev_id dev_name dev_size s =
     (if \<not> traces_allocated s then None
      else
        let trace = traces s cpu;
            (sid_v, s1) = atomic64_inc_return s
        in if strnlen dev_name (dev_name_size cfg) \<ge> dev_name_size cfg then Some (- ENOSPC, s1)
           else
             let hdr = iotrace_event_init_hdr iotrace_event_type_device_desc sid_v (ktime e)
                         (sizeof_desc cfg);
                 desc = \<lparr>desc_hdr = hdr, desc_id = ucast dev_id, device_size = dev_size,
                         device_name = dev_name\<rparr>;
                 (res, s2) = octf_trace_push e trace (Desc desc) s1
             in Some (res, iotrace_notify_of_new_events cpu s2))"

subsection \<open>Tracer life cycle\<close>

fun close_all :: "nat list \<Rightarrow> iotrace_context \<Rightarrow> iotrace_context" where
  "close_all [] s = s"
| "close_all (i # cpus) s = close_all cpus (octf_trace_close i s)"

definition deinit_tracers :: "iotrace_context \<Rightarrow> iotrace_context" where
  "deinit_tracers s = free_percpu (close_all (online_cpus s) s)"

text \<open>
  The loop of \<open>init_tracers\<close>: \<open>result\<close> is the value of the C variable on entry of
  the iteration (it is not initialised before the first one).
\<close>

fun open_all :: "lifecycle_env \<Rightarrow> nat list \<Rightarrow> int \<Rightarrow> iotrace_context \<Rightarrow> int \<times> iotrace_context" where
  "open_all e [] result s = (result, s)"
| "open_all e (i # cpus) result s =
     (if \<not> trace_ring (proc_files s i) then (- EINVAL, s)
      else
        let (r, s1) = octf_trace_open e i s
        in if r \<noteq> 0 then (r, s1) else open_all e cpus r s1)"

definition init_tracers :: "lifecycle_env \<Rightarrow> iotrace_context \<Rightarrow> int \<times> iotrace_context" where
  "init_tracers e s =
     (let s1 = alloc_percpu e s
      in if \<not> traces_allocated s1 then (- ENOMEM, s1)
         else
           let (result, s2) = open_all e (online_cpus s1) (uninit e) s1
           in if result \<noteq> 0 then (result, free_percpu (close_all (online_cpus s2) s2))
              else (0, s2))"

subsection \<open>Buffer sizing\<close>

text \<open>
  The division by the number of online processors traps when that number is 0: the
  model returns \<open>None\<close> there.
\<close>

definition iotrace_set_buffer_size ::
  "config \<Rightarrow> 64 word \<Rightarrow> iotrace_context \<Rightarrow> (int \<times> iotrace_context) option" where
  "iotrace_set_buffer_size cfg size_mb s =
     (if num_online_cpus s = 0 then None
      else
        let sz = size_mb * 1024 * 1024 div ucast (num_online_cpus s)
        in if size_mb > iotrace_procfs_max_buffer_size_mb cfg \<or> sz = 0 then Some (- EINVAL, s)
           else Some (0, s\<lparr>size := sz\<rparr>))"

definition iotrace_get_buffer_size :: "iotrace_context \<Rightarrow> 64 word" where
  "iotrace_get_buffer_size s = size s * ucast (num_online_cpus s) div 1024 div 1024"

fun alloc_all :: "sizing_env \<Rightarrow> nat list \<Rightarrow> int \<Rightarrow> iotrace_context \<Rightarrow> int \<times> iotrace_context" where
  "alloc_all e [] result s = (result, s)"
| "alloc_all e (i # cpus) result s =
     (let (r, s1) = iotrace_procfs_trace_file_alloc e i (size s) s
      in if r \<noteq> 0 then (r, s1) else alloc_all e cpus r s1)"

definition iotrace_init_buffers ::
  "config \<Rightarrow> sizing_env \<Rightarrow> 64 word \<Rightarrow> iotrace_context \<Rightarrow> (int \<times> iotrace_context) option" where
  "iotrace_init_buffers cfg e sz s =
     (if clients s \<noteq> 0 then Some (- EINVAL, s)
      else
        case iotrace_set_buffer_size cfg sz s of
          None \<Rightarrow> None
        | Some (result, s1) \<Rightarrow>
            if result \<noteq> 0 then Some (result, s1)
            else Some (alloc_all e (online_cpus s1) result s1))"

subsection \<open>Client management\<close>

definition iotrace_attach_client :: "lifecycle_env \<Rightarrow> iotrace_context \<Rightarrow> int \<times> iotrace_context" where
  "iotrace_attach_client e s =
     (if clients s = 0 then
        let (result, s1) = init_tracers e s
        in if result \<noteq> 0 then (result, s1)
           else
             let (result, s2) = register_trace_block_bio_queue e s1
             in if result \<noteq> 0 then (result, deinit_tracers s2)
                else (result, s2\<lparr>clients := clients s2 + 1\<rparr>)
      else (0, s\<lparr>clients := clients s + 1\<rparr>))"

definition iotrace_detach_client :: "iotrace_context \<Rightarrow> iotrace_context" where
  "iotrace_detach_client s =
     (let s1 = s\<lparr>clients := clients s - 1\<rparr>
      in if clients s1 \<noteq> 0 then s1
         else deinit_tracers (iotrace_bdev_remove_all (unregister_trace_block_bio_queue s1)))"

subsection \<open>Sequences of calls\<close>

datatype client_call = Attach lifecycle_env | Detach

fun client_step :: "client_call \<Rightarrow> iotrace_context \<Rightarrow> iotrace_context" where
  "client_step (Attach e) s = snd (iotrace_attach_client e s)"
| "client_step Detach s = iotrace_detach_client s"

fun run_clients :: "client_call list \<Rightarrow> iotrace_context \<Rightarrow> iotrace_context" where
  "run_clients [] s = s"
| "run_clients (c # cs) s = run_clients cs (client_step c s)"

text \<open>
  \<open>detach_bounded k cs s\<close>: running \<open>cs\<close> from \<open>s\<close>, with \<open>k\<close> successful attaches not
  yet detached, detach is never called more often than attach has succeeded.
\<close>

fun detach_bounded :: "nat \<Rightarrow> client_call list \<Rightarrow> iotrace_context \<Rightarrow> bool" where
  "detach_bounded k [] s = True"
| "detach_bounded k (Attach e # cs) s =
     detach_bounded (if fst (iotrace_attach_client e s) = 0 then Suc k else k) cs
       (snd (iotrace_attach_client e s))"
| "detach_bounded k (Detach # cs) s = (0 < k \<and> detach_bounded (k - 1) cs (iotrace_detach_client s))"

text \<open>The transitions of the client count from 0 to positive, and from positive to 0.\<close>

fun activations :: "client_call list \<Rightarrow> iotrace_context \<Rightarrow> nat" where
  "activations [] s = 0"
| "activations (c # cs) s =
     (if clients s = 0 \<and> 0 < clients (client_step c s) then 1 else 0)
       + activations cs (client_step c s)"

fun deactivations :: "client_call list \<Rightarrow> iotrace_context \<Rightarrow> nat" where
  "deactivations [] s = 0"
| "deactivations (c # cs) s =
     (if 0 < clients s \<and> clients (client_step c s) = 0 then 1 else 0)
       + deactivations cs (client_step c s)"

definition registrations :: "call list \<Rightarrow> nat" where
  "registrations l = length (filter (\<lambda>c. c = Register_probe 0) l)"

definition unregistrations :: "call list \<Rightarrow> nat" where
  "unregistrations l = length (filter (\<lambda>c. c = Unregister_probe) l)"

definition tracers_open :: "iotrace_context \<Rightarrow> bool" where
  "tracers_open s \<longleftrightarrow> traces_allocated s \<and> list_all (\<lambda>i. traces s i = Some i) (online_cpus s)"

definition idle :: "iotrace_context \<Rightarrow> bool" where
  "idle s \<longleftrightarrow> clients s = 0 \<and> \<not> hook s \<and> \<not> traces_allocated s"

datatype emit_call =
    Emit_bio emit_env nat "64 word" bio
  | Emit_desc emit_env nat "32 word" string "64 word"

fun emit :: "config \<Rightarrow> emit_call \<Rightarrow> iotrace_context \<Rightarrow> iotrace_context option" where
  "emit cfg (Emit_bio e cpu dev_id b) s = iotrace_trace_bio cfg e cpu dev_id b s"
| "emit cfg (Emit_desc e cpu dev_id dev_name dev_size) s =
     map_option snd (iotrace_trace_desc cfg e cpu dev_id dev_name dev_size s)"

text \<open>The states after each call of a sequence of emit calls.\<close>

fun emit_all :: "config \<Rightarrow> emit_call list \<Rightarrow> iotrace_context \<Rightarrow> iotrace_context list option" where
  "emit_all cfg [] s = Some []"
| "emit_all cfg (c # cs) s =
     (case emit cfg c s of
        None \<Rightarrow> None
      | Some s1 \<Rightarrow> map_option (\<lambda>ss. s1 # ss) (emit_all cfg cs s1))"

fun record_sid :: "trace_record \<Rightarrow> 64 word" where
  "record_sid (Io ev) = hdr_sid (ev_hdr ev)"
| "record_sid (Desc d) = hdr_sid (desc_hdr d)"

fun pushed :: "call list \<Rightarrow> trace_record list" where
  "pushed [] = []"
| "pushed (Trace_push h r res # l) = r # pushed l"
| "pushed (c # l) = pushed l"

definition new_calls :: "iotrace_context \<Rightarrow> iotrace_context \<Rightarrow> call list" where
  "new_calls s s' = drop (length (log s)) (log s')"

text \<open>The records among the calls that the trace library accepted, and the pushes it refused.\<close>

fun accepted :: "call list \<Rightarrow> trace_record list" where
  "accepted [] = []"
| "accepted (Trace_push h r res # l) = (if res = 0 then r # accepted l else accepted l)"
| "accepted (c # l) = accepted l"

fun refused_pushes :: "call list \<Rightarrow> nat" where
  "refused_pushes [] = 0"
| "refused_pushes (Trace_push h r res # l) = (if res = 0 then 0 else 1) + refused_pushes l"
| "refused_pushes (c # l) = refused_pushes l"

text \<open>
  An emit call whose device name does not fit the name field: \<open>iotrace_trace_desc\<close>
  returns before the push. An emit call whose push the trace library refuses.
\<close>

fun rejected_desc :: "config \<Rightarrow> emit_call \<Rightarrow> bool" where
  "rejected_desc cfg (Emit_bio e cpu dev_id b) = False"
| "rejected_desc cfg (Emit_desc e cpu dev_id dev_name dev_size) =
     (dev_name_size cfg \<le> length dev_name)"

fun push_refused :: "emit_call \<Rightarrow> bool" where
  "push_refused (Emit_bio e cpu dev_id b) = (push_result e \<noteq> 0)"
| "push_refused (Emit_desc e cpu dev_id dev_name dev_size) = (push_result e \<noteq> 0)"

text \<open>The state after a sequence of emit calls, the ids it drew, and the ids in a ring.\<close>

fun emit_run :: "config \<Rightarrow> emit_call list \<Rightarrow> iotrace_context \<Rightarrow> iotrace_context option" where
  "emit_run cfg [] s = Some s"
| "emit_run cfg (c # cs) s =
     (case emit cfg c s of
        None \<Rightarrow> None
      | Some s1 \<Rightarrow> emit_run cfg cs s1)"

definition issued_ids :: "config \<Rightarrow> emit_call list \<Rightarrow> iotrace_context \<Rightarrow> 64 word list option" where
  "issued_ids cfg cs s = map_option (map sid) (emit_all cfg cs s)"

definition ring_ids :: "nat \<Rightarrow> iotrace_context \<Rightarrow> 64 word list" where
  "ring_ids cpu s = map record_sid (rings s cpu)"

definition log_refused_pushes :: "iotrace_context \<Rightarrow> nat" where
  "log_refused_pushes s = refused_pushes (log s)"

subsection \<open>What a life-cycle call logs and leaves behind\<close>

text \<open>
  The loops of \<open>init_tracers\<close> and \<open>deinit_tracers\<close> change the handle table and
  the log only. The functions below give the calls they log, the table they leave and
  the value the opening loop returns, as functions of the processors visited.
\<close>

fun close_calls :: "nat list \<Rightarrow> (nat \<Rightarrow> octf_trace_t) \<Rightarrow> call list" where
  "close_calls [] t = []"
| "close_calls (i # cpus) t = Trace_close i (t i) # close_calls cpus (t(i := None))"

fun closed :: "nat list \<Rightarrow> (nat \<Rightarrow> octf_trace_t) \<Rightarrow> nat \<Rightarrow> octf_trace_t" where
  "closed [] t = t"
| "closed (i # cpus) t = closed cpus (t(i := None))"

fun open_calls :: "lifecycle_env \<Rightarrow> nat list \<Rightarrow> (nat \<Rightarrow> iotrace_proc_file) \<Rightarrow> call list" where
  "open_calls e [] pf = []"
| "open_calls e (i # cpus) pf =
     (if \<not> trace_ring (pf i) then []
      else Trace_open i (open_result e i) #
           (if open_result e i \<noteq> 0 then [] else open_calls e cpus pf))"

fun open_status :: "lifecycle_env \<Rightarrow> nat list \<Rightarrow> (nat \<Rightarrow> iotrace_proc_file) \<Rightarrow> int \<Rightarrow> int" where
  "open_status e [] pf r = r"
| "open_status e (i # cpus) pf r =
     (if \<not> trace_ring (pf i) then - EINVAL
      else if open_result e i \<noteq> 0 then open_result e i
      else open_status e cpus pf 0)"

fun opened ::
  "lifecycle_env \<Rightarrow> nat list \<Rightarrow> (nat \<Rightarrow> iotrace_proc_file) \<Rightarrow> (nat \<Rightarrow> octf_trace_t)
     \<Rightarrow> nat \<Rightarrow> octf_trace_t" where
  "opened e [] pf t = t"
| "opened e (i # cpus) pf t =
     (if \<not> trace_ring (pf i) then t
      else if open_result e i \<noteq> 0 then t
      else opened e cpus pf (t(i := Some i)))"

text \<open>
  The life-cycle invariant, with \<open>k\<close> the number of successful attaches that have not
  been detached.
\<close>

definition lifecycle_inv :: "nat \<Rightarrow> iotrace_context \<Rightarrow> bool" where
  "lifecycle_inv k s \<longleftrightarrow>
     clients s = int k \<and>
     (if k = 0 then \<not> hook s \<and> \<not> traces_allocated s else hook s \<and> tracers_open s)"

text \<open>
  The invariant of the data model, in every state a sequence of calls goes through: the
  count is not negative, and the hook is registered and the table allocated exactly
  when the count is positive.
\<close>

fun invariant_along :: "client_call list \<Rightarrow> iotrace_context \<Rightarrow> bool" where
  "invariant_along [] s =
     (0 \<le> clients s \<and> (hook s \<longleftrightarrow> 0 < clients s) \<and> (traces_allocated s \<longleftrightarrow> 0 < clients s))"
| "invariant_along (c # cs) s =
     (0 \<le> clients s \<and> (hook s \<longleftrightarrow> 0 < clients s) \<and> (traces_allocated s \<longleftrightarrow> 0 < clients s)
      \<and> invariant_along cs (client_step c s))"

text \<open>The I/O event that \<open>iotrace_trace_bio\<close> builds for sequence id \<open>sid_v\<close>.\<close>

definition bio_event :: "config \<Rightarrow> emit_env \<Rightarrow> 64 word \<Rightarrow> 64 word \<Rightarrow> bio \<Rightarrow> iotrace_event" where
  "bio_event cfg e sid_v dev_id b =
     \<lparr>ev_hdr = \<lparr>hdr_type = iotrace_event_type_io, hdr_sid = sid_v, hdr_timestamp = ktime e,
                hdr_size = sizeof_event cfg\<rparr>,
      operation = (if IOTRACE_BIO_IS_DISCARD b then iotrace_event_operation_discard
                   else if IOTRACE_BIO_IS_WRITE b then iotrace_event_operation_wr
                   else iotrace_event_operation_rd),
      flags = (if IOTRACE_BIO_IS_FLUSH b then iotrace_event_flag_flush else 0)
              OR (if IOTRACE_BIO_IS_FUA b then iotrace_event_flag_fua else 0),
      lba = bi_sector b, len = drop_bit 9 (bi_size b), io_class = dss_io_class e,
      ev_dev_id = dev_id\<rparr>"

subsection \<open>Example machines\<close>

text \<open>
  A machine after module load: four processors online, every procfs file with a ring of
  4 MiB, no client. The example values of the parameters: a name field of 32 bytes and
  a ceiling of 1024 MiB.
\<close>

definition example_config :: config where
  "example_config =
     \<lparr>sizeof_event = 64, sizeof_desc = 72, dev_name_size = 32,
      iotrace_procfs_max_buffer_size_mb = 1024\<rparr>"

definition boot_context :: iotrace_context where
  "boot_context =
     \<lparr>sid = 0, traces = (\<lambda>_. None), traces_allocated = False, clients = 0, size = 4194304,
      proc_files = (\<lambda>_. \<lparr>trace_ring = True, trace_ring_size = 4194304\<rparr>),
      online_cpus = [0, 1, 2, 3], hook = False, rings = (\<lambda>_. []), log = []\<rparr>"

definition env_ok :: lifecycle_env where
  "env_ok = \<lparr>alloc_ok = True, open_result = (\<lambda>_. 0), register_result = 0, uninit = 0\<rparr>"

text \<open>The host refuses the probe with \<open>-EBUSY\<close>.\<close>

definition env_register_fails :: lifecycle_env where
  "env_register_fails = env_ok\<lparr>register_result := - 16\<rparr>"

text \<open>Opening the trace of processor 0 fails with \<open>-EIO\<close>.\<close>

definition env_open_fails :: lifecycle_env where
  "env_open_fails = env_ok\<lparr>open_result := (\<lambda>i. if i = 0 then - 5 else 0)\<rparr>"

text \<open>Two processors online, the second one without a ring.\<close>

definition unbacked_context :: iotrace_context where
  "unbacked_context =
     boot_context\<lparr>online_cpus := [0, 1],
       proc_files := (\<lambda>i. \<lparr>trace_ring = (i = 0), trace_ring_size = 4194304\<rparr>)\<rparr>"

text \<open>One client attached to the machine after module load.\<close>

definition active_context :: iotrace_context where
  "active_context = snd (iotrace_attach_client env_ok boot_context)"

text \<open>Seven processors online.\<close>

definition seven_cpu_context :: iotrace_context where
  "seven_cpu_context = boot_context\<lparr>online_cpus := [0, 1, 2, 3, 4, 5, 6]\<rparr>"

definition sizing_ok :: sizing_env where
  "sizing_ok = \<lparr>file_alloc_result = (\<lambda>_. 0)\<rparr>"

definition emit_ok :: emit_env where
  "emit_ok = \<lparr>ktime = 1000, dss_io_class = 0, push_result = 0\<rparr>"

text \<open>
  Three emit calls on processor 0, every push accepted: an I/O event, a descriptor whose
  name of 32 characters does not fit the name field of 32 bytes, an I/O event.
\<close>

definition long_name_calls :: "emit_call list" where
  "long_name_calls =
     [Emit_bio emit_ok 0 8 \<lparr>bi_rw = 1, bi_sector = 1024, bi_size = 4096\<rparr>,
      Emit_desc emit_ok 0 8 ''nvme0n1-0123456789-0123456789-xy'' 2048,
      Emit_bio emit_ok 0 8 \<lparr>bi_rw = 0, bi_sector = 2048, bi_size = 512\<rparr>]"

text \<open>A write of 4096 bytes at sector 1024, with the flush bit set.\<close>

definition write_flush_bio :: bio where
  "write_flush_bio = \<lparr>bi_rw = WRITE OR REQ_FLUSH, bi_sector = 1024, bi_size = 4096\<rparr>"

section \<open>Proofs\<close>

subsection \<open>The loops of the tracer life cycle\<close>

lemma close_all_eq:
  "close_all cpus s =
     s\<lparr>traces := closed cpus (traces s), log := log s @ close_calls cpus (traces s)\<rparr>"
  by (induction cpus arbitrary: s) (simp_all add: octf_trace_close_def called_def)

lemma closed_apply: "closed cpus t i = (if i \<in> set cpus then None else t i)"
  by (induction cpus arbitrary: t) auto

lemma close_calls_mem: "i \<in> set cpus \<Longrightarrow> Trace_close i (t i) \<in> set (close_calls cpus t)"
proof (induction cpus arbitrary: t)
  case Nil
  then show ?case by simp
next
  case (Cons j cpus)
  show ?case
  proof (cases "i = j")
    case True
    then show ?thesis by simp
  next
    case False
    with Cons.prems have "i \<in> set cpus" by simp
    from Cons.IH [OF this, of "t(j := None)"]
    have "Trace_close i ((t(j := None)) i) \<in> set (close_calls cpus (t(j := None)))" .
    moreover have "(t(j := None)) i = t i" using False by simp
    ultimately have "Trace_close i (t i) \<in> set (close_calls cpus (t(j := None)))"
      by (simp only:)
    then show ?thesis by simp
  qed
qed

lemma close_calls_no_open [simp]: "Trace_open j r \<notin> set (close_calls cpus t)"
  by (induction cpus arbitrary: t) simp_all

lemma open_all_eq:
  "open_all e cpus r s =
     (open_status e cpus (proc_files s) r,
      s\<lparr>traces := opened e cpus (proc_files s) (traces s),
        log := log s @ open_calls e cpus (proc_files s)\<rparr>)"
  by (induction cpus arbitrary: r s) (simp_all add: octf_trace_open_def called_def Let_def)

lemma opened_keeps: "t i = Some i \<Longrightarrow> opened e cpus pf t i = Some i"
  by (induction cpus arbitrary: t) auto

lemma opened_all:
  "open_status e cpus pf r = 0 \<Longrightarrow> i \<in> set cpus \<Longrightarrow> opened e cpus pf t i = Some i"
  by (induction cpus arbitrary: r t) (auto simp: EINVAL_def opened_keeps split: if_splits)

lemma open_calls_opened:
  "Trace_open i 0 \<in> set (open_calls e cpus pf) \<Longrightarrow> i \<in> set cpus \<and> opened e cpus pf t i = Some i"
  by (induction cpus arbitrary: t) (auto simp: opened_keeps split: if_splits)

lemma opened_then_closed:
  assumes "Trace_open j 0 \<in> set (open_calls e cpus pf)"
  shows "Trace_close j (Some j) \<in> set (close_calls cpus (opened e cpus pf t))"
proof -
  from open_calls_opened [OF assms, of t]
  have "j \<in> set cpus" and "opened e cpus pf t j = Some j" by simp_all
  with close_calls_mem [of j cpus "opened e cpus pf t"] show ?thesis by simp
qed

lemma open_status_first_failure:
  assumes "\<forall>j\<in>set pre. trace_ring (pf j) \<and> open_result e j = 0"
  shows "open_status e (pre @ i # post) pf r =
           (if \<not> trace_ring (pf i) then - EINVAL
            else if open_result e i \<noteq> 0 then open_result e i
            else open_status e post pf 0)"
  using assms by (induction pre arbitrary: r) simp_all

lemma open_status_all_ok:
  assumes "\<forall>j\<in>set cpus. trace_ring (pf j) \<and> open_result e j = 0"
  shows "open_status e cpus pf 0 = 0"
  using assms by (induction cpus) simp_all

lemma open_status_nonempty: "cpus \<noteq> [] \<Longrightarrow> open_status e cpus pf r = open_status e cpus pf 0"
  by (cases cpus) simp_all

subsection \<open>Counting registrations in the log\<close>

lemma registrations_simps [simp]:
  "registrations [] = 0"
  "registrations (c # l) = (if c = Register_probe 0 then 1 else 0) + registrations l"
  "registrations (l @ m) = registrations l + registrations m"
  by (simp_all add: registrations_def)

lemma unregistrations_simps [simp]:
  "unregistrations [] = 0"
  "unregistrations (c # l) = (if c = Unregister_probe then 1 else 0) + unregistrations l"
  "unregistrations (l @ m) = unregistrations l + unregistrations m"
  by (simp_all add: unregistrations_def)

lemma registrations_close_calls [simp]: "registrations (close_calls cpus t) = 0"
  by (induction cpus arbitrary: t) simp_all

lemma unregistrations_close_calls [simp]: "unregistrations (close_calls cpus t) = 0"
  by (induction cpus arbitrary: t) simp_all

lemma registrations_open_calls [simp]: "registrations (open_calls e cpus pf) = 0"
  by (induction cpus) simp_all

lemma unregistrations_open_calls [simp]: "unregistrations (open_calls e cpus pf) = 0"
  by (induction cpus) simp_all

lemma new_calls_append [simp]: "log s' = log s @ l \<Longrightarrow> new_calls s s' = l"
  by (simp add: new_calls_def)

subsection \<open>The life-cycle functions in closed form\<close>

lemma init_tracers_eq:
  "init_tracers e s =
     (if \<not> alloc_ok e
      then (- ENOMEM, s\<lparr>log := log s @ [Alloc_percpu False], traces_allocated := False\<rparr>)
      else
        let st = open_status e (online_cpus s) (proc_files s) (uninit e);
            tr = opened e (online_cpus s) (proc_files s) (\<lambda>_. None);
            l = log s @ Alloc_percpu True # open_calls e (online_cpus s) (proc_files s)
        in if st \<noteq> 0
           then (st, s\<lparr>log := l @ close_calls (online_cpus s) tr @ [Free_percpu],
                       traces := closed (online_cpus s) tr, traces_allocated := False\<rparr>)
           else (0, s\<lparr>log := l, traces := tr, traces_allocated := True\<rparr>))"
  by (simp add: init_tracers_def alloc_percpu_def called_def open_all_eq close_all_eq
      free_percpu_def Let_def)

lemma deinit_tracers_eq:
  "deinit_tracers s =
     s\<lparr>log := log s @ close_calls (online_cpus s) (traces s) @ [Free_percpu],
       traces := closed (online_cpus s) (traces s), traces_allocated := False\<rparr>"
  by (simp add: deinit_tracers_def close_all_eq free_percpu_def called_def)

lemma attach_eq:
  "iotrace_attach_client e s =
     (if clients s \<noteq> 0 then (0, s\<lparr>clients := clients s + 1\<rparr>)
      else if \<not> alloc_ok e
        then (- ENOMEM, s\<lparr>log := log s @ [Alloc_percpu False], traces_allocated := False\<rparr>)
      else
        let st = open_status e (online_cpus s) (proc_files s) (uninit e);
            tr = opened e (online_cpus s) (proc_files s) (\<lambda>_. None);
            l = log s @ Alloc_percpu True # open_calls e (online_cpus s) (proc_files s)
        in if st \<noteq> 0
           then (st, s\<lparr>log := l @ close_calls (online_cpus s) tr @ [Free_percpu],
                       traces := closed (online_cpus s) tr, traces_allocated := False\<rparr>)
           else if register_result e \<noteq> 0
           then (register_result e,
                 s\<lparr>log := l @ Register_probe (register_result e) # close_calls (online_cpus s) tr
                             @ [Free_percpu],
                   traces := closed (online_cpus s) tr, traces_allocated := False\<rparr>)
           else (0, s\<lparr>log := l @ [Register_probe 0], traces := tr, traces_allocated := True,
                      hook := True, clients := 1\<rparr>))"
  by (simp add: iotrace_attach_client_def init_tracers_eq deinit_tracers_eq
      register_trace_block_bio_queue_def called_def Let_def ENOMEM_def)

lemma detach_eq:
  "iotrace_detach_client s =
     (if clients s \<noteq> 1 then s\<lparr>clients := clients s - 1\<rparr>
      else s\<lparr>clients := 0, hook := False,
             log := log s @ Unregister_probe # Bdev_remove_all #
                      close_calls (online_cpus s) (traces s) @ [Free_percpu],
             traces := closed (online_cpus s) (traces s), traces_allocated := False\<rparr>)"
  by (simp add: iotrace_detach_client_def deinit_tracers_eq unregister_trace_block_bio_queue_def
      iotrace_bdev_remove_all_def called_def Let_def)

lemma detach_clients: "clients (iotrace_detach_client s) = clients s - 1"
  by (simp add: detach_eq)

lemma attach_clients:
  "clients (snd (iotrace_attach_client e s)) =
     (if fst (iotrace_attach_client e s) = 0 then clients s + 1 else clients s)"
  by (simp add: attach_eq Let_def ENOMEM_def)

lemma attach_registrations:
  "registrations (log (snd (iotrace_attach_client e s))) =
     registrations (log s) +
       (if clients s = 0 \<and> 0 < clients (snd (iotrace_attach_client e s)) then 1 else 0)"
  by (simp add: attach_eq Let_def)

lemma attach_unregistrations:
  "unregistrations (log (snd (iotrace_attach_client e s))) = unregistrations (log s)"
  by (simp add: attach_eq Let_def)

lemma detach_registrations:
  "registrations (log (iotrace_detach_client s)) = registrations (log s)"
  by (simp add: detach_eq)

lemma detach_unregistrations:
  "unregistrations (log (iotrace_detach_client s)) =
     unregistrations (log s) +
       (if 0 < clients s \<and> clients (iotrace_detach_client s) = 0 then 1 else 0)"
  by (simp add: detach_eq)

subsection \<open>The life-cycle invariant\<close>

lemma attach_inv_ok:
  assumes "lifecycle_inv k s" and "fst (iotrace_attach_client e s) = 0"
  shows "lifecycle_inv (Suc k) (snd (iotrace_attach_client e s))"
proof (cases "k = 0")
  case True
  with assms show ?thesis
    by (auto simp: lifecycle_inv_def attach_eq Let_def tracers_open_def list_all_iff
        opened_all ENOMEM_def split: if_splits)
next
  case False
  with assms show ?thesis
    by (simp add: lifecycle_inv_def attach_eq tracers_open_def)
qed

lemma attach_inv_fail:
  assumes "lifecycle_inv k s" and "fst (iotrace_attach_client e s) \<noteq> 0"
  shows "lifecycle_inv k (snd (iotrace_attach_client e s))"
  using assms
  by (auto simp: lifecycle_inv_def attach_eq Let_def split: if_splits)

lemma detach_inv:
  assumes "lifecycle_inv (Suc k) s"
  shows "lifecycle_inv k (iotrace_detach_client s)"
  using assms
  by (auto simp: lifecycle_inv_def detach_eq tracers_open_def)

lemma lifecycle_inv_iff:
  "lifecycle_inv k s \<Longrightarrow>
     0 \<le> clients s \<and> (hook s \<longleftrightarrow> 0 < clients s) \<and> (traces_allocated s \<longleftrightarrow> 0 < clients s)
       \<and> (tracers_open s \<longleftrightarrow> 0 < clients s)"
  by (auto simp: lifecycle_inv_def tracers_open_def split: if_splits)

lemma idle_inv: "idle s \<Longrightarrow> lifecycle_inv 0 s"
  by (simp add: idle_def lifecycle_inv_def)

lemma run_clients_inv:
  "lifecycle_inv k s \<Longrightarrow> detach_bounded k cs s \<Longrightarrow> \<exists>k'. lifecycle_inv k' (run_clients cs s)"
proof (induction cs arbitrary: k s)
  case Nil
  then show ?case by auto
next
  case (Cons c cs)
  show ?case
  proof (cases c)
    case (Attach e)
    show ?thesis
    proof (cases "fst (iotrace_attach_client e s) = 0")
      case True
      from Cons.prems Attach True
      have "lifecycle_inv (Suc k) (snd (iotrace_attach_client e s))"
        and "detach_bounded (Suc k) cs (snd (iotrace_attach_client e s))"
        by (simp_all add: attach_inv_ok)
      from Cons.IH [OF this] Attach show ?thesis by simp
    next
      case False
      from Cons.prems Attach False
      have "lifecycle_inv k (snd (iotrace_attach_client e s))"
        and "detach_bounded k cs (snd (iotrace_attach_client e s))"
        by (simp_all add: attach_inv_fail)
      from Cons.IH [OF this] Attach show ?thesis by simp
    qed
  next
    case Detach
    with Cons.prems obtain j where k: "k = Suc j" by (cases k) auto
    from Cons.prems Detach k
    have "lifecycle_inv j (iotrace_detach_client s)"
      and "detach_bounded j cs (iotrace_detach_client s)"
      by (simp_all add: detach_inv)
    from Cons.IH [OF this] Detach show ?thesis by simp
  qed
qed

lemma run_clients_registrations:
  "registrations (log (run_clients cs s)) = registrations (log s) + activations cs s"
proof (induction cs arbitrary: s)
  case Nil
  show ?case by simp
next
  case (Cons c cs)
  show ?case
    by (cases c) (simp_all add: Cons.IH attach_registrations detach_registrations detach_clients)
qed

lemma run_clients_unregistrations:
  "unregistrations (log (run_clients cs s)) = unregistrations (log s) + deactivations cs s"
proof (induction cs arbitrary: s)
  case Nil
  show ?case by simp
next
  case (Cons c cs)
  show ?case
    by (cases c) (simp_all add: Cons.IH attach_unregistrations detach_unregistrations attach_clients)
qed

subsection \<open>Evaluating the example machines\<close>

lemmas example_defs =
  boot_context_def env_ok_def env_register_fails_def env_open_fails_def unbacked_context_def
  seven_cpu_context_def sizing_ok_def emit_ok_def example_config_def

lemma idle_boot_context: "idle boot_context"
  by (simp add: idle_def boot_context_def)

text \<open>
  C1. Starting from an idle module, for every sequence of attach and detach calls in which
  detach is never called more often than attach has succeeded: afterwards the hook is
  registered exactly when the client count is positive, the handle table is allocated
  (with the handle of every online processor open) exactly when the count is positive,
  and the numbers of successful registrations and of unregistrations logged are the
  numbers of transitions of the count from 0 to positive and from positive to 0.
\<close>

theorem attach_detach_invariant:
  assumes "idle s" and "detach_bounded 0 cs s"
  shows "(hook (run_clients cs s) \<longleftrightarrow> 0 < clients (run_clients cs s))
       \<and> (traces_allocated (run_clients cs s) \<longleftrightarrow> 0 < clients (run_clients cs s))
       \<and> (tracers_open (run_clients cs s) \<longleftrightarrow> 0 < clients (run_clients cs s))
       \<and> registrations (log (run_clients cs s)) = registrations (log s) + activations cs s
       \<and> unregistrations (log (run_clients cs s)) = unregistrations (log s) + deactivations cs s"
proof -
  from run_clients_inv [OF idle_inv [OF assms(1)] assms(2)]
  obtain k' where "lifecycle_inv k' (run_clients cs s)" ..
  from lifecycle_inv_iff [OF this] show ?thesis
    by (simp add: run_clients_registrations run_clients_unregistrations)
qed

theorem attach_detach_invariant_witness:
  "idle boot_context
   \<and> detach_bounded 0 [Attach env_open_fails, Attach env_ok, Attach env_ok, Detach, Detach] boot_context
   \<and> \<not> hook (run_clients [Attach env_open_fails, Attach env_ok, Attach env_ok, Detach, Detach] boot_context)
   \<and> clients (run_clients [Attach env_open_fails, Attach env_ok, Attach env_ok, Detach, Detach] boot_context) = 0
   \<and> registrations (log (run_clients [Attach env_open_fails, Attach env_ok, Attach env_ok, Detach, Detach] boot_context)) = 1
   \<and> unregistrations (log (run_clients [Attach env_open_fails, Attach env_ok, Attach env_ok, Detach, Detach] boot_context)) = 1"
proof -
  let ?cs = "[Attach env_open_fails, Attach env_ok, Attach env_ok, Detach, Detach]"
  have bounded: "detach_bounded 0 ?cs boot_context"
    by (simp add: attach_eq detach_eq example_defs Let_def EINVAL_def)
  have count: "clients (run_clients ?cs boot_context) = 0"
    by (simp add: attach_eq detach_eq example_defs Let_def EINVAL_def)
  have ups: "activations ?cs boot_context = 1"
    by (simp add: attach_eq detach_eq example_defs Let_def EINVAL_def)
  have downs: "deactivations ?cs boot_context = 1"
    by (simp add: attach_eq detach_eq example_defs Let_def EINVAL_def)
  have "log boot_context = []" by (simp add: boot_context_def)
  with attach_detach_invariant [OF idle_boot_context bounded] idle_boot_context bounded count
    ups downs
  show ?thesis by simp
qed

text \<open>
  C2. If attach is called with client count 0, the tracers are initialised successfully
  and the registration of the hook fails, then attach returns the registration error,
  the count is still 0, the hook is as before, the handle of every online processor has
  been closed again and the handle table has been freed, the release being the last
  call made. On every failure of attach the count is unchanged.
\<close>

theorem attach_registration_failure:
  "(clients s = 0 \<and> fst (init_tracers e s) = 0 \<and> register_result e \<noteq> 0 \<longrightarrow>
      fst (iotrace_attach_client e s) = register_result e
      \<and> clients (snd (iotrace_attach_client e s)) = 0
      \<and> hook (snd (iotrace_attach_client e s)) = hook s
      \<and> \<not> traces_allocated (snd (iotrace_attach_client e s))
      \<and> (\<forall>i\<in>set (online_cpus s).
            traces (snd (iotrace_attach_client e s)) i = None
            \<and> Trace_close i (Some i) \<in> set (new_calls s (snd (iotrace_attach_client e s))))
      \<and> last (new_calls s (snd (iotrace_attach_client e s))) = Free_percpu)
   \<and> (fst (iotrace_attach_client e s) \<noteq> 0 \<longrightarrow>
        clients (snd (iotrace_attach_client e s)) = clients s)"
proof -
  have "Trace_close i (Some i)
          \<in> set (close_calls (online_cpus s) (opened e (online_cpus s) (proc_files s) (\<lambda>_. None)))"
    if "open_status e (online_cpus s) (proc_files s) (uninit e) = 0" and "i \<in> set (online_cpus s)"
    for i
    using close_calls_mem [OF that(2), of "opened e (online_cpus s) (proc_files s) (\<lambda>_. None)"]
      opened_all [OF that] by simp
  then show ?thesis
    by (auto simp: attach_eq init_tracers_eq Let_def closed_apply ENOMEM_def split: if_splits)
qed

theorem attach_registration_failure_witness:
  "clients boot_context = 0
   \<and> fst (init_tracers env_register_fails boot_context) = 0
   \<and> register_result env_register_fails \<noteq> 0
   \<and> fst (iotrace_attach_client env_register_fails boot_context) = - 16
   \<and> clients (snd (iotrace_attach_client env_register_fails boot_context)) = 0
   \<and> \<not> traces_allocated (snd (iotrace_attach_client env_register_fails boot_context))
   \<and> Trace_close 3 (Some 3)
        \<in> set (new_calls boot_context (snd (iotrace_attach_client env_register_fails boot_context)))"
proof -
  have h: "clients boot_context = 0 \<and> fst (init_tracers env_register_fails boot_context) = 0
           \<and> register_result env_register_fails \<noteq> 0"
    by (simp add: init_tracers_eq example_defs Let_def)
  have "3 \<in> set (online_cpus boot_context)" and "register_result env_register_fails = - 16"
    by (simp_all add: example_defs)
  with attach_registration_failure [of boot_context env_register_fails] h
  show ?thesis by simp
qed

text \<open>
  C3, as amended. During the first attach the online processors are visited in order and
  the first failure decides the result. When the handle table has been allocated and
  every processor before processor \<open>i\<close> has its ring and has been opened, then: if the
  ring of \<open>i\<close> is missing, attach fails with \<open>-EINVAL\<close>; if the ring is there and the
  open call for \<open>i\<close> fails, attach fails with the error of that call. In both cases the
  activation is rolled back: every trace opened in the call has been closed, the handle
  table has been freed (the last call made), the module is idle again, and a following
  attach, with every ring present and allocation, opens and registration succeeding,
  succeeds.
\<close>

theorem activation_first_failure:
  assumes "idle s" and "alloc_ok e"
    and "online_cpus s = pre @ i # post"
    and "\<forall>j\<in>set pre. trace_ring (proc_files s j) \<and> open_result e j = 0"
    and "\<not> trace_ring (proc_files s i) \<or> open_result e i \<noteq> 0"
  shows "fst (iotrace_attach_client e s) =
           (if \<not> trace_ring (proc_files s i) then - EINVAL else open_result e i)
       \<and> fst (iotrace_attach_client e s) \<noteq> 0
       \<and> idle (snd (iotrace_attach_client e s))
       \<and> (\<forall>j. Trace_open j 0 \<in> set (new_calls s (snd (iotrace_attach_client e s))) \<longrightarrow>
              Trace_close j (Some j) \<in> set (new_calls s (snd (iotrace_attach_client e s))))
       \<and> last (new_calls s (snd (iotrace_attach_client e s))) = Free_percpu
       \<and> (\<forall>pf' e'. alloc_ok e' \<and> register_result e' = 0
              \<and> (\<forall>j\<in>set (online_cpus s). trace_ring (pf' j) \<and> open_result e' j = 0) \<longrightarrow>
            fst (iotrace_attach_client e' (snd (iotrace_attach_client e s)\<lparr>proc_files := pf'\<rparr>)) = 0
            \<and> clients (snd (iotrace_attach_client e'
                  (snd (iotrace_attach_client e s)\<lparr>proc_files := pf'\<rparr>))) = 1
            \<and> hook (snd (iotrace_attach_client e'
                  (snd (iotrace_attach_client e s)\<lparr>proc_files := pf'\<rparr>)))
            \<and> tracers_open (snd (iotrace_attach_client e'
                  (snd (iotrace_attach_client e s)\<lparr>proc_files := pf'\<rparr>))))"
proof -
  let ?cpus = "online_cpus s"
  let ?tr = "opened e ?cpus (proc_files s) (\<lambda>_. None)"
  let ?st = "open_status e ?cpus (proc_files s) (uninit e)"
  from assms(1) have zero: "clients s = 0" and off: "\<not> hook s"
    by (simp_all add: idle_def)
  have st: "?st = (if \<not> trace_ring (proc_files s i) then - EINVAL else open_result e i)"
    using open_status_first_failure [OF assms(4), of i post "uninit e"] assms(3,5) by auto
  with assms(5) have nz: "?st \<noteq> 0" by (auto simp: EINVAL_def)
  have att: "iotrace_attach_client e s =
      (?st, s\<lparr>log := (log s @ Alloc_percpu True # open_calls e ?cpus (proc_files s))
                      @ close_calls ?cpus ?tr @ [Free_percpu],
               traces := closed ?cpus ?tr, traces_allocated := False\<rparr>)"
    using zero assms(2) nz by (simp add: attach_eq Let_def)
  have again: "fst (iotrace_attach_client e' (snd (iotrace_attach_client e s)\<lparr>proc_files := pf'\<rparr>)) = 0
      \<and> clients (snd (iotrace_attach_client e' (snd (iotrace_attach_client e s)\<lparr>proc_files := pf'\<rparr>))) = 1
      \<and> hook (snd (iotrace_attach_client e' (snd (iotrace_attach_client e s)\<lparr>proc_files := pf'\<rparr>)))
      \<and> tracers_open (snd (iotrace_attach_client e' (snd (iotrace_attach_client e s)\<lparr>proc_files := pf'\<rparr>)))"
    if "alloc_ok e'" and "register_result e' = 0"
      and ok: "\<forall>j\<in>set ?cpus. trace_ring (pf' j) \<and> open_result e' j = 0"
    for pf' e'
  proof -
    from assms(3) have "open_status e' ?cpus pf' (uninit e') = open_status e' ?cpus pf' 0"
      by (intro open_status_nonempty) simp
    with open_status_all_ok [OF ok] have ok': "open_status e' ?cpus pf' (uninit e') = 0" by simp
    then have "\<forall>j\<in>set ?cpus. opened e' ?cpus pf' (\<lambda>_. None) j = Some j"
      by (simp add: opened_all)
    with that zero ok' show ?thesis
      by (simp add: att attach_eq [of e'] Let_def tracers_open_def list_all_iff)
  qed
  from st nz zero off again show ?thesis
    by (auto simp: att opened_then_closed idle_def)
qed

theorem activation_first_failure_witness:
  "idle unbacked_context \<and> alloc_ok env_ok
   \<and> online_cpus unbacked_context = [0] @ 1 # []
   \<and> trace_ring (proc_files unbacked_context 0) \<and> open_result env_ok 0 = 0
   \<and> \<not> trace_ring (proc_files unbacked_context 1)
   \<and> fst (iotrace_attach_client env_ok unbacked_context) = - EINVAL
   \<and> idle (snd (iotrace_attach_client env_ok unbacked_context))
   \<and> Trace_close 0 (Some 0)
        \<in> set (new_calls unbacked_context (snd (iotrace_attach_client env_ok unbacked_context)))
   \<and> fst (iotrace_attach_client env_ok
        (snd (iotrace_attach_client env_ok unbacked_context)\<lparr>proc_files := proc_files boot_context\<rparr>)) = 0"
proof -
  have h1: "idle unbacked_context" and h2: "alloc_ok env_ok"
    and h3: "online_cpus unbacked_context = [0] @ 1 # []"
    and h4: "\<forall>j\<in>set [0]. trace_ring (proc_files unbacked_context j) \<and> open_result env_ok j = 0"
    and h5: "\<not> trace_ring (proc_files unbacked_context 1) \<or> open_result env_ok 1 \<noteq> 0"
    by (simp_all add: idle_def example_defs)
  note main = activation_first_failure [OF h1 h2 h3 h4 h5]
  have opened0: "Trace_open 0 0
      \<in> set (new_calls unbacked_context (snd (iotrace_attach_client env_ok unbacked_context)))"
    by (simp add: attach_eq example_defs Let_def EINVAL_def)
  have ring: "\<not> trace_ring (proc_files unbacked_context 1)"
    by (simp add: example_defs)
  have again: "alloc_ok env_ok \<and> register_result env_ok = 0
      \<and> (\<forall>j\<in>set (online_cpus unbacked_context).
            trace_ring (proc_files boot_context j) \<and> open_result env_ok j = 0)"
    by (simp add: example_defs)
  from main ring opened0 again h1 h2 h3 h4 h5 show ?thesis
    by (simp del: append.simps)
qed

text \<open>
  The claim as stated fails: with two processors online, the second one without a ring
  and the open call of the first one failing with \<open>-EIO\<close>, attach returns \<open>-EIO\<close>,
  not \<open>-EINVAL\<close>.
\<close>

theorem activation_missing_ring_counterexample:
  "idle unbacked_context
   \<and> 1 \<in> set (online_cpus unbacked_context)
   \<and> \<not> trace_ring (proc_files unbacked_context 1)
   \<and> fst (iotrace_attach_client env_open_fails unbacked_context) = - 5
   \<and> fst (iotrace_attach_client env_open_fails unbacked_context) \<noteq> - EINVAL"
  by (simp add: idle_def attach_eq example_defs Let_def EINVAL_def)

subsection \<open>Detaching more often than attaching\<close>

lemma invariant_along_nonneg: "invariant_along cs s \<Longrightarrow> 0 \<le> clients s"
  by (cases cs) simp_all

lemma invariant_needs_bound:
  "lifecycle_inv k s \<Longrightarrow> invariant_along cs s \<Longrightarrow> detach_bounded k cs s"
proof (induction cs arbitrary: k s)
  case Nil
  show ?case by simp
next
  case (Cons c cs)
  from Cons.prems(2) have along: "invariant_along cs (client_step c s)" by simp
  show ?case
  proof (cases c)
    case (Attach e)
    show ?thesis
    proof (cases "fst (iotrace_attach_client e s) = 0")
      case True
      with Cons.prems(1) have "lifecycle_inv (Suc k) (snd (iotrace_attach_client e s))"
        by (simp add: attach_inv_ok)
      from Cons.IH [OF this] along Attach True show ?thesis by simp
    next
      case False
      with Cons.prems(1) have "lifecycle_inv k (snd (iotrace_attach_client e s))"
        by (simp add: attach_inv_fail)
      from Cons.IH [OF this] along Attach False show ?thesis by simp
    qed
  next
    case Detach
    from invariant_along_nonneg [OF along] Detach Cons.prems(1)
    have "0 < k" by (simp add: detach_clients lifecycle_inv_def)
    then obtain j where k: "k = Suc j" by (cases k) auto
    with Cons.prems(1) have "lifecycle_inv j (iotrace_detach_client s)"
      by (simp add: detach_inv)
    from Cons.IH [OF this] along Detach k show ?thesis by simp
  qed
qed

lemma bound_keeps_invariant:
  "lifecycle_inv k s \<Longrightarrow> detach_bounded k cs s \<Longrightarrow> invariant_along cs s"
proof (induction cs arbitrary: k s)
  case Nil
  from lifecycle_inv_iff [OF Nil(1)] show ?case by simp
next
  case (Cons c cs)
  note here = lifecycle_inv_iff [OF Cons.prems(1)]
  show ?case
  proof (cases c)
    case (Attach e)
    show ?thesis
    proof (cases "fst (iotrace_attach_client e s) = 0")
      case True
      from Cons.prems Attach True
      have "lifecycle_inv (Suc k) (snd (iotrace_attach_client e s))"
        and "detach_bounded (Suc k) cs (snd (iotrace_attach_client e s))"
        by (simp_all add: attach_inv_ok)
      from Cons.IH [OF this] here Attach show ?thesis by simp
    next
      case False
      from Cons.prems Attach False
      have "lifecycle_inv k (snd (iotrace_attach_client e s))"
        and "detach_bounded k cs (snd (iotrace_attach_client e s))"
        by (simp_all add: attach_inv_fail)
      from Cons.IH [OF this] here Attach show ?thesis by simp
    qed
  next
    case Detach
    with Cons.prems obtain j where k: "k = Suc j" by (cases k) auto
    from Cons.prems Detach k
    have "lifecycle_inv j (iotrace_detach_client s)"
      and "detach_bounded j cs (iotrace_detach_client s)"
      by (simp_all add: detach_inv)
    from Cons.IH [OF this] here Detach show ?thesis by simp
  qed
qed

text \<open>
  C10. A detach at client count 0 leaves the count at -1 and changes nothing else: the
  hook is not unregistered, no trace is closed, nothing is logged. Starting from an
  idle module, the invariant (count not negative, hook registered and table allocated
  exactly when the count is positive) holds in every state of a sequence of calls only
  if detach is never called more often than attach has succeeded, and it does hold
  then.
\<close>

theorem detach_below_zero:
  "(clients s = 0 \<longrightarrow>
      iotrace_detach_client s = s\<lparr>clients := - 1\<rparr> \<and> clients (iotrace_detach_client s) < 0)
   \<and> (idle s \<longrightarrow> (invariant_along cs s \<longleftrightarrow> detach_bounded 0 cs s))"
  by (auto simp: detach_eq dest: idle_inv invariant_needs_bound bound_keeps_invariant)

theorem detach_below_zero_witness:
  "clients boot_context = 0 \<and> idle boot_context
   \<and> iotrace_detach_client boot_context = boot_context\<lparr>clients := - 1\<rparr>
   \<and> clients (iotrace_detach_client boot_context) < 0
   \<and> \<not> detach_bounded 0 [Detach, Attach env_ok] boot_context
   \<and> \<not> invariant_along [Detach, Attach env_ok] boot_context"
proof -
  have h: "clients boot_context = 0" "idle boot_context"
    by (simp_all add: idle_def example_defs)
  have "\<not> detach_bounded 0 [Detach, Attach env_ok] boot_context"
    by simp
  with detach_below_zero [of boot_context "[Detach, Attach env_ok]"] h
  show ?thesis by simp
qed

subsection \<open>The emitters in closed form\<close>

lemma trace_desc_eq:
  "iotrace_trace_desc cfg e cpu dev_id dev_name dev_size s =
     (if \<not> traces_allocated s then None
      else if dev_name_size cfg \<le> length dev_name then Some (- ENOSPC, s\<lparr>sid := sid s + 1\<rparr>)
      else
        let d = \<lparr>desc_hdr = \<lparr>hdr_type = iotrace_event_type_device_desc, hdr_sid = sid s + 1,
                            hdr_timestamp = ktime e, hdr_size = sizeof_desc cfg\<rparr>,
                 desc_id = ucast dev_id, device_size = dev_size, device_name = dev_name\<rparr>
        in Some (push_result e,
             s\<lparr>sid := sid s + 1,
               rings := (case traces s cpu of
                           Some ring \<Rightarrow>
                             if push_result e = 0 then (rings s)(ring := rings s ring @ [Desc d])
                             else rings s
                         | None \<Rightarrow> rings s),
               log := log s @ [Trace_push (traces s cpu) (Desc d) (push_result e), Wake_up cpu]\<rparr>))"
  by (auto simp: iotrace_trace_desc_def atomic64_inc_return_def strnlen_def octf_trace_push_def
      iotrace_notify_of_new_events_def called_def iotrace_event_init_hdr_def Let_def
      split: option.splits)

lemma trace_bio_eq:
  "iotrace_trace_bio cfg e cpu dev_id b s =
     (if \<not> traces_allocated s then None
      else
        let ev = bio_event cfg e (sid s + 1) dev_id b
        in Some (s\<lparr>sid := sid s + 1,
               rings := (case traces s cpu of
                           Some ring \<Rightarrow>
                             if push_result e = 0 then (rings s)(ring := rings s ring @ [Io ev])
                             else rings s
                         | None \<Rightarrow> rings s),
               log := log s @ [Trace_push (traces s cpu) (Io ev) (push_result e), Wake_up cpu]\<rparr>))"
  by (auto simp: iotrace_trace_bio_def atomic64_inc_return_def octf_trace_push_def bio_event_def
      iotrace_notify_of_new_events_def called_def iotrace_event_init_hdr_def Let_def
      IOTRACE_BIO_BISECTOR_def IOTRACE_BIO_BISIZE_def SECTOR_SHIFT_def
      split: option.splits)

lemma emit_sid: "emit cfg c s = Some s' \<Longrightarrow> sid s' = sid s + 1"
  by (cases c) (auto simp: trace_bio_eq trace_desc_eq Let_def split: if_splits)

lemma emit_allocated: "emit cfg c s = Some s' \<Longrightarrow> traces_allocated s'"
  by (cases c) (auto simp: trace_bio_eq trace_desc_eq Let_def split: if_splits)

lemma emit_pushed:
  "emit cfg c s = Some s' \<Longrightarrow>
     map record_sid (pushed (new_calls s s')) = (if rejected_desc cfg c then [] else [sid s'])"
  by (cases c)
     (auto simp: trace_bio_eq trace_desc_eq bio_event_def Let_def new_calls_def split: if_splits)

lemma emit_accepted:
  "emit cfg c s = Some s' \<Longrightarrow>
     map record_sid (accepted (new_calls s s')) =
       (if rejected_desc cfg c \<or> push_refused c then [] else [sid s'])"
  by (cases c)
     (auto simp: trace_bio_eq trace_desc_eq bio_event_def Let_def new_calls_def split: if_splits)

lemma emit_all_length: "emit_all cfg cs s = Some ss \<Longrightarrow> length ss = length cs"
  by (induction cs arbitrary: s ss) (auto split: option.splits)

lemma emit_all_sid:
  "emit_all cfg cs s = Some ss \<Longrightarrow> k < length ss \<Longrightarrow> sid (ss ! k) = sid s + of_nat (Suc k)"
proof (induction cs arbitrary: s ss k)
  case Nil
  then show ?case by simp
next
  case (Cons c cs)
  from Cons.prems(1) obtain s1 ss1 where
    s1: "emit cfg c s = Some s1" and ss1: "emit_all cfg cs s1 = Some ss1" and ss: "ss = s1 # ss1"
    by (auto split: option.splits)
  show ?case
  proof (cases k)
    case 0
    with ss emit_sid [OF s1] show ?thesis by simp
  next
    case (Suc j)
    with Cons.prems(2) ss have "j < length ss1" by simp
    from Cons.IH [OF ss1 this] emit_sid [OF s1] Suc ss show ?thesis by simp
  qed
qed

lemma emit_all_pushed:
  "emit_all cfg cs s = Some ss \<Longrightarrow> k < length ss \<Longrightarrow>
     map record_sid (pushed (new_calls ((s # ss) ! k) (ss ! k))) =
       (if rejected_desc cfg (cs ! k) then [] else [sid (ss ! k)])
     \<and> map record_sid (accepted (new_calls ((s # ss) ! k) (ss ! k))) =
       (if rejected_desc cfg (cs ! k) \<or> push_refused (cs ! k) then [] else [sid (ss ! k)])"
proof (induction cs arbitrary: s ss k)
  case Nil
  then show ?case by simp
next
  case (Cons c cs)
  from Cons.prems(1) obtain s1 ss1 where
    s1: "emit cfg c s = Some s1" and ss1: "emit_all cfg cs s1 = Some ss1" and ss: "ss = s1 # ss1"
    by (auto split: option.splits)
  show ?case
  proof (cases k)
    case 0
    with ss emit_pushed [OF s1] emit_accepted [OF s1] show ?thesis by simp
  next
    case (Suc j)
    with Cons.prems(2) ss have j: "j < length ss1" by simp
    from Cons.IH [OF ss1 j] Suc ss show ?thesis by simp
  qed
qed

lemma emit_all_total:
  "traces_allocated s \<Longrightarrow> \<exists>ss. emit_all cfg cs s = Some ss"
proof (induction cs arbitrary: s)
  case Nil
  show ?case by simp
next
  case (Cons c cs)
  from Cons.prems have "\<exists>s1. emit cfg c s = Some s1"
    by (cases c) (simp_all add: trace_bio_eq trace_desc_eq Let_def)
  then obtain s1 where s1: "emit cfg c s = Some s1" ..
  from Cons.IH [OF emit_allocated [OF s1]] s1 show ?case by auto
qed

lemma unat_sid_offset:
  assumes "unat (x :: 64 word) + n < 2 ^ 64" and "k \<le> n"
  shows "unat (x + of_nat k) = unat x + k"
proof -
  from assms have k: "k < 2 ^ 64" by simp
  then have "unat (of_nat k :: 64 word) = k"
    by (simp add: unat_of_nat)
  moreover from assms this have "unat x + unat (of_nat k :: 64 word) < 2 ^ LENGTH(64)"
    by simp
  ultimately show ?thesis
    by (simp add: unat_add_lem [THEN iffD1])
qed

lemma active_context_allocated: "traces_allocated active_context"
  by (simp add: active_context_def attach_eq example_defs Let_def)

lemma active_context_sid: "sid active_context = 0"
  by (simp add: active_context_def attach_eq example_defs Let_def)

lemma active_context_eq:
  "active_context =
     boot_context\<lparr>log := [Alloc_percpu True, Trace_open 0 0, Trace_open 1 0, Trace_open 2 0,
                             Trace_open 3 0, Register_probe 0],
       traces := (\<lambda>_. None)(0 := Some 0, 1 := Some 1, 2 := Some 2, 3 := Some 3),
       traces_allocated := True, hook := True, clients := 1\<rparr>"
  by (simp add: active_context_def attach_eq example_defs Let_def)

text \<open>
  C4, as amended. Every emit call, of either kind and on any processor, draws the next
  value of the one 64-bit counter. So for a sequence of emit calls (in the order of
  their atomic increments) that does not take the counter past \<open>2^64 - 1\<close>, the ids
  drawn are the consecutive values after the initial one: pairwise distinct, strictly
  increasing in the order of the calls, none reused and none left out in the drawing.
  Every call hands exactly one record to the trace library, carrying the id of the call,
  except a device descriptor rejected for the length of its name, which draws its id
  and hands over nothing. So an id is carried by no accepted record exactly when the
  push of its call was refused by the trace library or its call was such a rejected
  descriptor.
\<close>

theorem emitted_sequence_ids:
  assumes "traces_allocated s" and "unat (sid s) + length cs < 2 ^ 64"
  shows "\<exists>ss. emit_all cfg cs s = Some ss \<and> length ss = length cs
           \<and> map (\<lambda>x. unat (sid x)) ss = [Suc (unat (sid s))..<Suc (unat (sid s) + length cs)]
           \<and> distinct (map sid ss) \<and> sorted_wrt (<) (map sid ss)
           \<and> (\<forall>k<length ss.
                 map record_sid (pushed (new_calls ((s # ss) ! k) (ss ! k))) =
                   (if rejected_desc cfg (cs ! k) then [] else [sid (ss ! k)])
                 \<and> map record_sid (accepted (new_calls ((s # ss) ! k) (ss ! k))) =
                   (if rejected_desc cfg (cs ! k) \<or> push_refused (cs ! k) then []
                    else [sid (ss ! k)]))"
proof -
  from emit_all_total [OF assms(1)] obtain ss where ss: "emit_all cfg cs s = Some ss" ..
  have len: "length ss = length cs" by (rule emit_all_length [OF ss])
  have nth: "unat (sid (ss ! k)) = unat (sid s) + Suc k" if "k < length ss" for k
    using emit_all_sid [OF ss that] unat_sid_offset [OF assms(2), of "Suc k"] that len by simp
  have ids: "map (\<lambda>x. unat (sid x)) ss = [Suc (unat (sid s))..<Suc (unat (sid s) + length cs)]"
    by (rule nth_equalityI) (simp_all add: len nth del: upt_Suc)
  have "distinct (map unat (map sid ss))"
    using ids by (simp add: comp_def del: upt_Suc)
  then have dist: "distinct (map sid ss)"
    by (metis distinct_map)
  have sorted: "sorted_wrt (<) (map sid ss)"
    by (simp add: sorted_wrt_iff_nth_less word_less_nat_alt nth)
  from ss len ids dist sorted emit_all_pushed [OF ss] show ?thesis by blast
qed

theorem emitted_sequence_ids_witness:
  "traces_allocated active_context
   \<and> unat (sid active_context) + length long_name_calls < 2 ^ 64
   \<and> (\<exists>ss. emit_all example_config long_name_calls active_context = Some ss
         \<and> map (\<lambda>x. unat (sid x)) ss = [1, 2, 3]
         \<and> distinct (map sid ss) \<and> sorted_wrt (<) (map sid ss)
         \<and> map record_sid (pushed (new_calls active_context (ss ! 0))) = [sid (ss ! 0)]
         \<and> map record_sid (pushed (new_calls (ss ! 0) (ss ! 1))) = []
         \<and> map record_sid (accepted (new_calls (ss ! 1) (ss ! 2))) = [sid (ss ! 2)])"
proof -
  have h2: "unat (sid active_context) + length long_name_calls < 2 ^ 64"
    by (simp add: active_context_sid long_name_calls_def)
  have upt: "[Suc 0..<4] = [1, 2, 3]"
    by (simp add: upt_rec)
  have calls: "length long_name_calls = 3"
    "\<not> rejected_desc example_config (long_name_calls ! 0)"
    "rejected_desc example_config (long_name_calls ! 1)"
    "\<not> rejected_desc example_config (long_name_calls ! 2)"
    "\<not> push_refused (long_name_calls ! 2)"
    by (simp_all add: long_name_calls_def example_defs)
  from emitted_sequence_ids [OF active_context_allocated h2, of example_config]
  obtain ss where ss: "emit_all example_config long_name_calls active_context = Some ss"
    and len: "length ss = length long_name_calls"
    and ids: "map (\<lambda>x. unat (sid x)) ss
                = [Suc (unat (sid active_context))..<Suc (unat (sid active_context)
                     + length long_name_calls)]"
    and ord: "distinct (map sid ss)" "sorted_wrt (<) (map sid ss)"
    and each: "\<forall>k<length ss.
        map record_sid (pushed (new_calls ((active_context # ss) ! k) (ss ! k))) =
          (if rejected_desc example_config (long_name_calls ! k) then [] else [sid (ss ! k)])
        \<and> map record_sid (accepted (new_calls ((active_context # ss) ! k) (ss ! k))) =
          (if rejected_desc example_config (long_name_calls ! k) \<or> push_refused (long_name_calls ! k)
           then [] else [sid (ss ! k)])"
    by blast
  from len calls(1) have l3: "length ss = 3" by simp
  from each [THEN spec, of 0] each [THEN spec, of 1] each [THEN spec, of 2] l3 calls have
    "map record_sid (pushed (new_calls active_context (ss ! 0))) = [sid (ss ! 0)]"
    "map record_sid (pushed (new_calls (ss ! 0) (ss ! 1))) = []"
    "map record_sid (accepted (new_calls (ss ! 1) (ss ! 2))) = [sid (ss ! 2)]"
    by simp_all
  with ss ids ord calls(1) upt active_context_allocated h2 show ?thesis
    by (auto simp: active_context_sid)
qed

text \<open>
  The claim as stated fails: of three emit calls on processor 0 whose pushes are all
  accepted, the second being a descriptor with a name that does not fit, the ids drawn
  are 1, 2 and 3, no push is refused, and the ring holds records with the ids 1 and 3
  only. The emitter itself has left out id 2.
\<close>

theorem emitted_ids_skip_counterexample:
  "issued_ids example_config long_name_calls active_context = Some [1, 2, 3]
   \<and> map_option (ring_ids 0) (emit_run example_config long_name_calls active_context) = Some [1, 3]
   \<and> map_option log_refused_pushes (emit_run example_config long_name_calls active_context) = Some 0"
  by (simp add: issued_ids_def ring_ids_def log_refused_pushes_def long_name_calls_def
      active_context_eq trace_bio_eq trace_desc_eq bio_event_def Let_def example_defs)

text \<open>
  C5. With the handle table allocated: a device name one character shorter than the name
  field passes the length check, the descriptor with that name is pushed to the trace
  of the processor, the processor's waiter is woken, and the outcome of the push is
  returned, so the call succeeds when the push does, and the record is then in the ring.
  A name as long as the field or longer makes the call return \<open>-ENOSPC\<close> without a
  push or a wake-up: the rings and the log are unchanged.
\<close>

theorem trace_desc_name_capacity:
  assumes "traces_allocated s"
  shows "(Suc (length dev_name) = dev_name_size cfg \<longrightarrow>
           (\<exists>d s'. iotrace_trace_desc cfg e cpu dev_id dev_name dev_size s = Some (push_result e, s')
              \<and> device_name d = dev_name
              \<and> new_calls s s' = [Trace_push (traces s cpu) (Desc d) (push_result e), Wake_up cpu]
              \<and> (push_result e = 0 \<longrightarrow>
                   (\<forall>ring. traces s cpu = Some ring \<longrightarrow> rings s' ring = rings s ring @ [Desc d]))))
       \<and> (dev_name_size cfg \<le> length dev_name \<longrightarrow>
           (\<exists>s'. iotrace_trace_desc cfg e cpu dev_id dev_name dev_size s = Some (- ENOSPC, s')
              \<and> rings s' = rings s \<and> log s' = log s))"
  using assms by (auto simp: trace_desc_eq Let_def)

theorem trace_desc_name_capacity_witness:
  "traces_allocated active_context
   \<and> Suc (length ''nvme0n1-0123456789-0123456789-x'') = dev_name_size example_config
   \<and> dev_name_size example_config \<le> length ''nvme0n1-0123456789-0123456789-xy''
   \<and> (\<exists>s'. iotrace_trace_desc example_config emit_ok 0 8 ''nvme0n1-0123456789-0123456789-x''
              2048 active_context = Some (0, s'))
   \<and> (\<exists>s'. iotrace_trace_desc example_config emit_ok 0 8 ''nvme0n1-0123456789-0123456789-xy''
              2048 active_context = Some (- ENOSPC, s')
          \<and> rings s' = rings active_context \<and> log s' = log active_context)"
proof -
  have fits: "Suc (length ''nvme0n1-0123456789-0123456789-x'') = dev_name_size example_config"
    and long: "dev_name_size example_config \<le> length ''nvme0n1-0123456789-0123456789-xy''"
    and ok: "push_result emit_ok = 0"
    by (simp_all add: example_defs)
  from trace_desc_name_capacity [OF active_context_allocated,
      of "''nvme0n1-0123456789-0123456789-x''" example_config emit_ok 0 8 2048] fits ok
  have short: "\<exists>s'. iotrace_trace_desc example_config emit_ok 0 8
      ''nvme0n1-0123456789-0123456789-x'' 2048 active_context = Some (0, s')"
    by auto
  from trace_desc_name_capacity [OF active_context_allocated,
      of "''nvme0n1-0123456789-0123456789-xy''" example_config emit_ok 0 8 2048] long
  have "\<exists>s'. iotrace_trace_desc example_config emit_ok 0 8
      ''nvme0n1-0123456789-0123456789-xy'' 2048 active_context = Some (- ENOSPC, s')
        \<and> rings s' = rings active_context \<and> log s' = log active_context"
    by blast
  with active_context_allocated fits long short show ?thesis by blast
qed

text \<open>
  C6. With the handle table allocated, every call of \<open>iotrace_trace_desc\<close> returns and
  leaves the sequence counter advanced by exactly one. The id is drawn before the name
  is checked: a call rejected for the length of the name returns \<open>-ENOSPC\<close> and
  differs from the state before in the counter only.
\<close>

theorem trace_desc_consumes_sid:
  assumes "traces_allocated s"
  shows "\<exists>r s'. iotrace_trace_desc cfg e cpu dev_id dev_name dev_size s = Some (r, s')
           \<and> sid s' = sid s + 1
           \<and> (dev_name_size cfg \<le> length dev_name \<longrightarrow> r = - ENOSPC \<and> s' = s\<lparr>sid := sid s + 1\<rparr>)"
  using assms by (auto simp: trace_desc_eq Let_def)

theorem trace_desc_consumes_sid_witness:
  "traces_allocated active_context
   \<and> dev_name_size example_config \<le> length ''nvme0n1-0123456789-0123456789-xy''
   \<and> iotrace_trace_desc example_config emit_ok 0 8 ''nvme0n1-0123456789-0123456789-xy'' 2048
        active_context = Some (- ENOSPC, active_context\<lparr>sid := 1\<rparr>)"
proof -
  have long: "dev_name_size example_config \<le> length ''nvme0n1-0123456789-0123456789-xy''"
    by (simp add: example_defs)
  from trace_desc_consumes_sid [OF active_context_allocated,
      of example_config emit_ok 0 8 "''nvme0n1-0123456789-0123456789-xy''" 2048] long
  have "iotrace_trace_desc example_config emit_ok 0 8 ''nvme0n1-0123456789-0123456789-xy'' 2048
      active_context = Some (- ENOSPC, active_context\<lparr>sid := sid active_context + 1\<rparr>)"
    by auto
  with active_context_allocated long show ?thesis
    by (simp add: active_context_sid)
qed

text \<open>
  C7. With the handle table allocated, \<open>iotrace_trace_bio\<close> returns and makes exactly
  two calls, in this order: the push of one I/O event to the trace of the given
  processor, and the wake-up of that processor's waiter, whatever the push returned.
  The operation of the event is discard if the discard bit of the bio is set, else
  write if its data direction is write, else read; its flags are the flush bit and the
  FUA bit of the bio, each set on its own; its address is the start sector of the bio
  and its length the byte size of the bio shifted right by 9. The function returns the
  new state only: the outcome of the push reaches the caller in no way other than the
  ring.
\<close>

theorem trace_bio_event:
  assumes "traces_allocated s"
  shows "\<exists>ev s'. iotrace_trace_bio cfg e cpu dev_id b s = Some s'
          \<and> new_calls s s' = [Trace_push (traces s cpu) (Io ev) (push_result e), Wake_up cpu]
          \<and> operation ev =
              (if bi_rw b AND REQ_DISCARD \<noteq> 0 then iotrace_event_operation_discard
               else if bio_data_dir b = WRITE then iotrace_event_operation_wr
               else iotrace_event_operation_rd)
          \<and> flags ev =
              (if bi_rw b AND REQ_FLUSH \<noteq> 0 then iotrace_event_flag_flush else 0)
                OR (if bi_rw b AND REQ_FUA \<noteq> 0 then iotrace_event_flag_fua else 0)
          \<and> lba ev = bi_sector b
          \<and> len ev = drop_bit 9 (bi_size b)
          \<and> hdr_type (ev_hdr ev) = iotrace_event_type_io
          \<and> hdr_sid (ev_hdr ev) = sid s + 1
          \<and> hdr_size (ev_hdr ev) = sizeof_event cfg
          \<and> ev_dev_id ev = dev_id
          \<and> (\<forall>ring. traces s cpu = Some ring \<longrightarrow>
                rings s' = (if push_result e = 0 then (rings s)(ring := rings s ring @ [Io ev])
                            else rings s))"
  using assms
  by (auto simp: trace_bio_eq bio_event_def Let_def IOTRACE_BIO_IS_DISCARD_def
      IOTRACE_BIO_IS_WRITE_def IOTRACE_BIO_IS_FLUSH_def IOTRACE_BIO_IS_FUA_def
      IOTRACE_BIO_OP_FLAGS_def)

theorem trace_bio_event_witness:
  "traces_allocated active_context
   \<and> (\<exists>ev s'. iotrace_trace_bio example_config emit_ok 2 8 write_flush_bio active_context = Some s'
         \<and> new_calls active_context s' = [Trace_push (Some 2) (Io ev) 0, Wake_up 2]
         \<and> operation ev = iotrace_event_operation_wr
         \<and> flags ev = iotrace_event_flag_flush
         \<and> lba ev = 1024 \<and> len ev = 8
         \<and> rings s' 2 = [Io ev])"
proof -
  have slot: "traces active_context 2 = Some 2" and empty: "rings active_context 2 = []"
    by (simp_all add: active_context_def attach_eq example_defs Let_def)
  have bits: "bi_rw write_flush_bio AND REQ_DISCARD = 0"
    "bio_data_dir write_flush_bio = WRITE"
    "bi_rw write_flush_bio AND REQ_FLUSH \<noteq> 0"
    "bi_rw write_flush_bio AND REQ_FUA = 0"
    "bi_sector write_flush_bio = 1024"
    "drop_bit 9 (bi_size write_flush_bio) = 8"
    by (simp_all add: write_flush_bio_def WRITE_def REQ_FLUSH_def REQ_DISCARD_def REQ_FUA_def
        bio_data_dir_def)
  have ok: "push_result emit_ok = 0"
    by (simp add: example_defs)
  from trace_bio_event [OF active_context_allocated, of example_config emit_ok 2 8 write_flush_bio]
  obtain ev s' where
    "iotrace_trace_bio example_config emit_ok 2 8 write_flush_bio active_context = Some s'"
    "new_calls active_context s' = [Trace_push (traces active_context 2) (Io ev) (push_result emit_ok), Wake_up 2]"
    "operation ev =
       (if bi_rw write_flush_bio AND REQ_DISCARD \<noteq> 0 then iotrace_event_operation_discard
        else if bio_data_dir write_flush_bio = WRITE then iotrace_event_operation_wr
        else iotrace_event_operation_rd)"
    "flags ev =
       (if bi_rw write_flush_bio AND REQ_FLUSH \<noteq> 0 then iotrace_event_flag_flush else 0)
         OR (if bi_rw write_flush_bio AND REQ_FUA \<noteq> 0 then iotrace_event_flag_fua else 0)"
    "lba ev = bi_sector write_flush_bio"
    "len ev = drop_bit 9 (bi_size write_flush_bio)"
    "\<forall>ring. traces active_context 2 = Some ring \<longrightarrow>
       rings s' = (if push_result emit_ok = 0
                   then (rings active_context)(ring := rings active_context ring @ [Io ev])
                   else rings active_context)"
    by blast
  with slot empty bits ok active_context_allocated show ?thesis
    by (intro conjI exI [of _ ev] exI [of _ s']) simp_all
qed

subsection \<open>Buffer sizes without overflow\<close>

lemma unat_num_online_cpus:
  assumes "length (online_cpus s) < 2 ^ 32"
  shows "unat (ucast (num_online_cpus s) :: 64 word) = length (online_cpus s)"
proof -
  from assms have "unat (num_online_cpus s) = length (online_cpus s)"
    by (simp add: num_online_cpus_def unat_of_nat)
  moreover have "unat (ucast (num_online_cpus s) :: 64 word) = unat (num_online_cpus s)"
    by (simp add: unsigned_ucast_eq take_bit_nat_eq_self_iff)
       (rule less_trans [OF unsigned_less], simp)
  ultimately show ?thesis by simp
qed

lemma num_online_cpus_nonzero:
  assumes "online_cpus s \<noteq> []" and "length (online_cpus s) < 2 ^ 32"
  shows "num_online_cpus s \<noteq> 0"
proof
  assume "num_online_cpus s = 0"
  then have "unat (ucast (num_online_cpus s) :: 64 word) = 0" by simp
  with unat_num_online_cpus [OF assms(2)] assms(1) show False by simp
qed

lemma unat_mb_bytes:
  assumes "unat (x :: 64 word) < 2 ^ 44"
  shows "unat (x * 1024 * 1024) = unat x * 2 ^ 20"
    and "unat (1048576 * x) = unat x * 2 ^ 20"
proof -
  have "unat (x * 1048576) = unat x * unat (1048576 :: 64 word)"
    using assms by (intro unat_mult_lem [THEN iffD1]) simp
  then show "unat (1048576 * x) = unat x * 2 ^ 20"
    by (simp add: mult.commute)
  then show "unat (x * 1024 * 1024) = unat x * 2 ^ 20"
    by simp
qed

lemma alloc_all_frame:
  "size (snd (alloc_all e cpus r s)) = size s \<and>
   online_cpus (snd (alloc_all e cpus r s)) = online_cpus s"
  by (induction cpus arbitrary: r s)
     (simp_all add: iotrace_procfs_trace_file_alloc_def called_def Let_def)

lemma alloc_all_ok:
  "\<forall>i\<in>set cpus. file_alloc_result e i = 0 \<Longrightarrow> fst (alloc_all e cpus 0 s) = 0"
  by (induction cpus arbitrary: s)
     (simp_all add: iotrace_procfs_trace_file_alloc_def called_def Let_def)

lemma share_zero:
  assumes "0 < length (online_cpus s)" and "length (online_cpus s) < 2 ^ 32"
    and "unat x * 2 ^ 20 div length (online_cpus s) = 0"
  shows "x * 1024 * 1024 div ucast (num_online_cpus s) = (0 :: 64 word)"
proof -
  from assms have "unat x * 2 ^ 20 < 2 ^ 32"
    by (simp add: div_eq_0_iff)
  then have "unat x < 2 ^ 44" by simp
  from unat_mb_bytes [OF this] unat_num_online_cpus [OF assms(2)] assms(3)
  have "unat (x * 1024 * 1024 div ucast (num_online_cpus s)) = 0"
    by (simp add: unat_div)
  then show ?thesis by (simp add: unat_0_iff)
qed

lemma init_buffers_accepts:
  assumes "clients s = 0" and "num_online_cpus s \<noteq> 0"
    and "size_mb \<le> iotrace_procfs_max_buffer_size_mb cfg"
    and "size_mb * 1024 * 1024 div ucast (num_online_cpus s) \<noteq> 0"
    and "\<forall>i\<in>set (online_cpus s). file_alloc_result e i = 0"
  shows "\<exists>s'. iotrace_init_buffers cfg e size_mb s = Some (0, s')"
proof -
  define s1 where "s1 = s\<lparr>size := size_mb * 1024 * 1024 div ucast (num_online_cpus s)\<rparr>"
  from assms(1-4) have "iotrace_init_buffers cfg e size_mb s = Some (alloc_all e (online_cpus s) 0 s1)"
    by (simp add: iotrace_init_buffers_def iotrace_set_buffer_size_def Let_def s1_def not_less [symmetric])
  moreover from alloc_all_ok [OF assms(5), of s1]
  have "alloc_all e (online_cpus s) 0 s1 = (0, snd (alloc_all e (online_cpus s) 0 s1))"
    by (simp add: prod_eq_iff)
  ultimately show ?thesis by auto
qed

text \<open>
  C8. \<open>iotrace_init_buffers\<close> returns \<open>-EINVAL\<close> and leaves the whole state, the stored
  per-processor size included, as it was: when the client count is positive; and, with
  no client and a number of online processors that a C unsigned int holds, when the
  requested total is 0 MiB, when it is above the ceiling, and when the requested bytes
  divided by the number of online processors are 0 (as a number, and as the 64-bit
  value the code computes).
\<close>

theorem init_buffers_rejects:
  "(0 < clients s \<longrightarrow> iotrace_init_buffers cfg e size_mb s = Some (- EINVAL, s))
   \<and> (clients s = 0 \<and> 0 < length (online_cpus s) \<and> length (online_cpus s) < 2 ^ 32
        \<and> (size_mb = 0 \<or> iotrace_procfs_max_buffer_size_mb cfg < size_mb
             \<or> unat size_mb * 2 ^ 20 div length (online_cpus s) = 0
             \<or> size_mb * 1024 * 1024 div ucast (num_online_cpus s) = 0) \<longrightarrow>
      iotrace_init_buffers cfg e size_mb s = Some (- EINVAL, s))"
proof -
  have "iotrace_init_buffers cfg e size_mb s = Some (- EINVAL, s)"
    if "clients s = 0" and "0 < length (online_cpus s)" and "length (online_cpus s) < 2 ^ 32"
      and "size_mb = 0 \<or> iotrace_procfs_max_buffer_size_mb cfg < size_mb
             \<or> unat size_mb * 2 ^ 20 div length (online_cpus s) = 0
             \<or> size_mb * 1024 * 1024 div ucast (num_online_cpus s) = 0"
  proof -
    from that(2,3) have nz: "num_online_cpus s \<noteq> 0"
      by (intro num_online_cpus_nonzero) simp_all
    from that(4) share_zero [OF that(2,3), of size_mb]
    have "iotrace_procfs_max_buffer_size_mb cfg < size_mb
            \<or> size_mb * 1024 * 1024 div ucast (num_online_cpus s) = 0"
      by auto
    with that(1) nz show ?thesis
      by (auto simp: iotrace_init_buffers_def iotrace_set_buffer_size_def Let_def EINVAL_def)
  qed
  then show ?thesis
    by (auto simp: iotrace_init_buffers_def)
qed

theorem init_buffers_rejects_witness:
  "0 < clients active_context
   \<and> iotrace_init_buffers example_config sizing_ok 16 active_context = Some (- EINVAL, active_context)
   \<and> clients boot_context = 0 \<and> 0 < length (online_cpus boot_context)
   \<and> length (online_cpus boot_context) < 2 ^ 32
   \<and> iotrace_procfs_max_buffer_size_mb example_config < 1025
   \<and> iotrace_init_buffers example_config sizing_ok 0 boot_context = Some (- EINVAL, boot_context)
   \<and> iotrace_init_buffers example_config sizing_ok 1025 boot_context = Some (- EINVAL, boot_context)"
proof -
  have active: "0 < clients active_context"
    by (simp add: active_context_def attach_eq example_defs Let_def)
  have boot: "clients boot_context = 0" "0 < length (online_cpus boot_context)"
    "length (online_cpus boot_context) < 2 ^ 32"
    "iotrace_procfs_max_buffer_size_mb example_config < 1025"
    by (simp_all add: example_defs)
  from init_buffers_rejects [of active_context example_config sizing_ok 16]
    init_buffers_rejects [of boot_context example_config sizing_ok 0]
    init_buffers_rejects [of boot_context example_config sizing_ok 1025]
    active boot
  show ?thesis by simp
qed

text \<open>
  C9. When \<open>iotrace_init_buffers\<close> has succeeded for a request of \<open>X\<close> MiB with \<open>P\<close>
  processors online, \<open>iotrace_get_buffer_size\<close> returns
  \<open>((X * 2^20) div P) * P div 2^20\<close>. The ceiling, whose value is not in the sources, is
  any value below \<open>2^44\<close> MiB, so that the requested bytes fit 64 bits; \<open>P\<close> is a
  positive value of a C unsigned int. The two examples: 1 MiB on 4 processors gives 1,
  100 MiB on 7 processors gives 99.
\<close>

theorem buffer_size_round_trip:
  assumes "iotrace_init_buffers cfg e size_mb s = Some (0, s')"
    and "0 < length (online_cpus s)" and "length (online_cpus s) < 2 ^ 32"
    and "unat (iotrace_procfs_max_buffer_size_mb cfg) < 2 ^ 44"
  shows "unat (iotrace_get_buffer_size s') =
           (unat size_mb * 2 ^ 20 div length (online_cpus s)) * length (online_cpus s) div 2 ^ 20"
proof -
  let ?P = "length (online_cpus s)"
  define sz :: "64 word" where "sz = size_mb * 1024 * 1024 div ucast (num_online_cpus s)"
  define n :: "64 word" where "n = ucast (num_online_cpus s)"
  from assms(2,3) have nz: "num_online_cpus s \<noteq> 0"
    by (intro num_online_cpus_nonzero) simp_all
  from assms(1) nz have le: "size_mb \<le> iotrace_procfs_max_buffer_size_mb cfg"
    and s': "s' = snd (alloc_all e (online_cpus s) 0 (s\<lparr>size := sz\<rparr>))"
    by (auto simp: iotrace_init_buffers_def iotrace_set_buffer_size_def Let_def EINVAL_def sz_def
        split: if_splits)
  from le assms(4) have small: "unat size_mb < 2 ^ 44"
    by (simp add: word_le_nat_alt)
  have cpus: "unat n = ?P"
    unfolding n_def by (rule unat_num_online_cpus [OF assms(3)])
  from s' have size: "size s' = sz" and online: "online_cpus s' = online_cpus s"
    by (simp_all add: alloc_all_frame)
  have sz: "unat sz = unat size_mb * 2 ^ 20 div ?P"
    unfolding sz_def n_def [symmetric] unat_div unat_mb_bytes(1) [OF small] cpus ..
  have "unat sz * ?P \<le> unat size_mb * 2 ^ 20"
    unfolding sz by simp
  also have "\<dots> < 2 ^ 64"
    using small by simp
  finally have "unat sz * unat n < 2 ^ LENGTH(64)"
    by (simp add: cpus)
  then have prod: "unat (sz * n) = unat sz * ?P"
    by (simp add: unat_mult_lem [THEN iffD1] cpus)
  have "iotrace_get_buffer_size s' = sz * n div 1024 div 1024"
    by (simp add: iotrace_get_buffer_size_def size num_online_cpus_def online n_def)
  then have "unat (iotrace_get_buffer_size s') = unat sz * ?P div 1024 div 1024"
    by (simp add: unat_div prod)
  then show ?thesis
    by (simp add: sz div_mult2_eq)
qed

theorem buffer_size_round_trip_witness:
  "0 < length (online_cpus seven_cpu_context) \<and> length (online_cpus seven_cpu_context) < 2 ^ 32
   \<and> unat (iotrace_procfs_max_buffer_size_mb example_config) < 2 ^ 44
   \<and> (\<exists>s'. iotrace_init_buffers example_config sizing_ok 100 seven_cpu_context = Some (0, s')
          \<and> unat (iotrace_get_buffer_size s') = 99)
   \<and> (\<exists>s'. iotrace_init_buffers example_config sizing_ok 1 boot_context = Some (0, s')
          \<and> unat (iotrace_get_buffer_size s') = 1)"
proof -
  have seven: "0 < length (online_cpus seven_cpu_context)"
    "length (online_cpus seven_cpu_context) < 2 ^ 32"
    and four: "0 < length (online_cpus boot_context)" "length (online_cpus boot_context) < 2 ^ 32"
    and ceiling: "unat (iotrace_procfs_max_buffer_size_mb example_config) < 2 ^ 44"
    by (simp_all add: example_defs)
  have "\<exists>s'. iotrace_init_buffers example_config sizing_ok 100 seven_cpu_context = Some (0, s')"
    by (rule init_buffers_accepts) (simp_all add: num_online_cpus_def example_defs)
  then obtain s7 where
    s7: "iotrace_init_buffers example_config sizing_ok 100 seven_cpu_context = Some (0, s7)" ..
  have "\<exists>s'. iotrace_init_buffers example_config sizing_ok 1 boot_context = Some (0, s')"
    by (rule init_buffers_accepts) (simp_all add: num_online_cpus_def example_defs)
  then obtain s4 where
    s4: "iotrace_init_buffers example_config sizing_ok 1 boot_context = Some (0, s4)" ..
  have "length (online_cpus seven_cpu_context) = 7" and "length (online_cpus boot_context) = 4"
    by (simp_all add: example_defs)
  with buffer_size_round_trip [OF s7 seven ceiling] buffer_size_round_trip [OF s4 four ceiling]
  have "unat (iotrace_get_buffer_size s7) = 99" and "unat (iotrace_get_buffer_size s4) = 1"
    by simp_all
  with s7 s4 seven ceiling show ?thesis by blast
qed

end
